theory Spec2Isabelle
  imports Complex_Main "HOL-Library.Signed_Division"
begin

section \<open>A path tracer: \<^verbatim>\<open>cpp/ray-tracing/main.cpp\<close>\<close>

text \<open>
  The program renders a scene of spheres. Only \<^verbatim>\<open>main.cpp\<close> is among the sources;
  the headers it includes (\<^verbatim>\<open>rtweekend.h\<close>, \<^verbatim>\<open>color.h\<close>, \<^verbatim>\<open>hittable_list.h\<close>,
  \<^verbatim>\<open>sphere.h\<close>, \<^verbatim>\<open>camera.h\<close>, \<^verbatim>\<open>material.h\<close>, \<^verbatim>\<open>image.h\<close>, \<^verbatim>\<open>timer.h\<close>) are not.
  Plain data of those headers is modelled from the specification and marked so; their
  functions that compute something (intersection, scattering, the camera, tone mapping,
  the random generator, the clock) are parameters of the model, collected in the record
  \<open>externals\<close>, so every statement below holds for any implementation of them.

  Conventions: a C++ \<^verbatim>\<open>double\<close> is a \<^typ>\<open>real\<close> (exact arithmetic, no rounding, no NaN
  and no infinity other than the bound \<open>infinity\<close> below); a C++ \<^verbatim>\<open>int\<close> is an
  \<^typ>\<open>int\<close> (the constants of the source stay far inside 32 bits); the random generator
  and the wall clock are one abstract state \<open>'g\<close> that each draw and each reading
  advances. A worker is modelled running on its own, from start to end: the threads of
  \<^verbatim>\<open>main\<close> are not interleaved here. The mutex of the progress tracker makes a
  call of \<^verbatim>\<open>update\<close> one step, and the order and number of a worker's calls do not
  depend on any value drawn or read.
\<close>

subsection \<open>Vectors, rays, materials, spheres\<close>

text \<open>Modelled from the spec: \<^verbatim>\<open>vec3.h\<close> is missing; "3-vectors, colors" with the
  standard operations. \<open>vec_mul\<close> is the componentwise product \<^verbatim>\<open>u * v\<close>, \<open>vec_scale\<close>
  the product \<^verbatim>\<open>t * v\<close> with a scalar.\<close>

datatype vec3 = vec3 (vec_x: real) (vec_y: real) (vec_z: real)

type_synonym color = vec3
type_synonym point3 = vec3

definition vec_add :: "vec3 \<Rightarrow> vec3 \<Rightarrow> vec3" where
  "vec_add u v = vec3 (vec_x u + vec_x v) (vec_y u + vec_y v) (vec_z u + vec_z v)"

definition vec_sub :: "vec3 \<Rightarrow> vec3 \<Rightarrow> vec3" where
  "vec_sub u v = vec3 (vec_x u - vec_x v) (vec_y u - vec_y v) (vec_z u - vec_z v)"

definition vec_mul :: "vec3 \<Rightarrow> vec3 \<Rightarrow> vec3" where
  "vec_mul u v = vec3 (vec_x u * vec_x v) (vec_y u * vec_y v) (vec_z u * vec_z v)"

definition vec_scale :: "real \<Rightarrow> vec3 \<Rightarrow> vec3" where
  "vec_scale t v = vec3 (t * vec_x v) (t * vec_y v) (t * vec_z v)"

definition vec_length :: "vec3 \<Rightarrow> real" where
  "vec_length v = sqrt (vec_x v * vec_x v + vec_y v * vec_y v + vec_z v * vec_z v)"

text \<open>Modelled from the spec: \<^verbatim>\<open>unit_vector(v)\<close> is \<^verbatim>\<open>v / v.length()\<close>. For the zero
  vector the program computes NaN components; here the division gives 0. No statement
  below depends on the value of \<open>unit_vector\<close>.\<close>

definition unit_vector :: "vec3 \<Rightarrow> vec3" where
  "unit_vector v = vec_scale (1 / vec_length v) v"

text \<open>Modelled from the spec: a ray is an origin and a direction (\<^verbatim>\<open>ray.h\<close>).\<close>

datatype ray = ray (origin: point3) (direction: vec3)

text \<open>Modelled from the spec: the three materials of \<^verbatim>\<open>material.h\<close>. The constructor of
  a metal clamps its fuzz to at most 1.\<close>

datatype material = Lambertian color | Metal color real | Dielectric real

definition lambertian :: "color \<Rightarrow> material" where
  "lambertian a = Lambertian a"

definition metal :: "color \<Rightarrow> real \<Rightarrow> material" where
  "metal a f = Metal a (if f < 1 then f else 1)"

definition dielectric :: "real \<Rightarrow> material" where
  "dielectric index_of_refraction = Dielectric index_of_refraction"

text \<open>Modelled from the spec: a sphere is a center, a radius and its material; the scene
  is the sequence of its objects and \<^verbatim>\<open>add\<close> appends one (\<^verbatim>\<open>sphere.h\<close>,
  \<^verbatim>\<open>hittable_list.h\<close>).\<close>

datatype sphere = sphere (center: point3) (radius: real) (sphere_mat_ptr: material)

type_synonym hittable_list = "sphere list"

definition add :: "sphere \<Rightarrow> hittable_list \<Rightarrow> hittable_list" where
  "add object world = world @ [object]"

text \<open>Modelled from the spec: the record an intersection test fills in
  (\<^verbatim>\<open>hittable.h\<close>).\<close>

record hit_record =
  rec_p :: point3
  rec_normal :: vec3
  mat_ptr :: material
  rec_t :: real
  front_face :: bool

text \<open>The upper bound of an intersection test is a double that may be
  \<^verbatim>\<open>infinity\<close> (\<^verbatim>\<open>rtweekend.h\<close>).\<close>

datatype t_bound = Finite real | Infinity

definition infinity :: t_bound where
  "infinity = Infinity"

text \<open>Modelled from the spec: a pixel is three integer channels (\<^verbatim>\<open>image.h\<close>); an image
  is its dimensions and the pixels pushed so far, \<^verbatim>\<open>pushPixel\<close> appends one.\<close>

datatype Pixel = Pixel int int int

record Image =
  img_width :: int
  img_height :: int
  pixels :: "Pixel list"

definition pushPixel :: "Pixel \<Rightarrow> Image \<Rightarrow> Image" where
  "pushPixel px img = img\<lparr>pixels := pixels img @ [px]\<rparr>"

subsection \<open>The functions of the missing headers\<close>

text \<open>
  \<^item> \<open>random_double\<close>: \<^verbatim>\<open>random_double()\<close>, one draw from the generator;
  \<^item> \<open>clock_now\<close>: one reading of the wall clock, in seconds (used by \<^verbatim>\<open>Timer\<close>);
  \<^item> \<open>world_hit\<close>: \<^verbatim>\<open>world.hit(r, t_min, t_max, rec)\<close>; \<open>Some rec\<close> when it returns true;
  \<^item> \<open>scatter\<close>: \<^verbatim>\<open>mat->scatter(r, rec, attenuation, scattered)\<close>, which may draw random
    numbers; \<open>Some (attenuation, scattered)\<close> when it returns true;
  \<^item> \<open>get_ray\<close>: \<^verbatim>\<open>cam.get_ray(u, v)\<close> of the global camera, which draws a lens offset;
  \<^item> \<open>get_color\<close>: \<^verbatim>\<open>get_color(pixel_color, samples_per_pixel)\<close>.
\<close>

record 'g externals =
  random_double :: "'g \<Rightarrow> real \<times> 'g"
  clock_now :: "'g \<Rightarrow> real \<times> 'g"
  world_hit :: "hittable_list \<Rightarrow> ray \<Rightarrow> real \<Rightarrow> t_bound \<Rightarrow> hit_record option"
  scatter :: "material \<Rightarrow> ray \<Rightarrow> hit_record \<Rightarrow> 'g \<Rightarrow> (color \<times> ray) option \<times> 'g"
  get_ray :: "real \<Rightarrow> real \<Rightarrow> 'g \<Rightarrow> ray \<times> 'g"
  get_color :: "color \<Rightarrow> int \<Rightarrow> Pixel"

subsection \<open>The constants of the source\<close>

text \<open>The constants at the top of \<^verbatim>\<open>main.cpp\<close> are the fields of a record, so that
  statements can range over other settings than the one compiled in; \<open>main_cfg\<close> is the
  setting of the source. \<open>samples_per_pixel\<close> and \<open>image_height\<close> are derived as the source
  derives them: \<^verbatim>\<open>/\<close> on two ints truncates towards zero (\<open>sdiv\<close>), and
  \<^verbatim>\<open>static_cast<int>\<close> of a double drops its fraction.\<close>

record config =
  image_width :: int
  samples_per_pixel_total :: int
  threadCount :: int
  aspect_ratio :: real
  max_depth :: int

definition static_cast_int :: "real \<Rightarrow> int" where
  "static_cast_int d = (if 0 \<le> d then \<lfloor>d\<rfloor> else \<lceil>d\<rceil>)"

definition samples_per_pixel :: "config \<Rightarrow> int" where
  "samples_per_pixel cfg = samples_per_pixel_total cfg sdiv threadCount cfg"

definition image_height :: "config \<Rightarrow> int" where
  "image_height cfg = static_cast_int (real_of_int (image_width cfg) / aspect_ratio cfg)"

definition main_cfg :: config where
  "main_cfg = \<lparr>image_width = 600, samples_per_pixel_total = 16, threadCount = 16,
     aspect_ratio = 16 / 9, max_depth = 10\<rparr>"

subsection \<open>\<^verbatim>\<open>ray_color\<close>\<close>

text \<open>The sky colour of the last three lines of \<^verbatim>\<open>ray_color\<close>.\<close>

definition sky_color :: "ray \<Rightarrow> color" where
  "sky_color r =
     (let unit_direction = unit_vector (direction r);
          t = 0.5 * (vec_y unit_direction + 1.0)
      in vec_add (vec_scale (1.0 - t) (vec3 1.0 1.0 1.0)) (vec_scale t (vec3 0.5 0.7 1.0)))"

function ray_color :: "'g externals \<Rightarrow> ray \<Rightarrow> hittable_list \<Rightarrow> int \<Rightarrow> 'g \<Rightarrow> color \<times> 'g" where
  "ray_color E r world depth g =
     (if depth \<le> 0 then (vec3 0.0 0.0 0.0, g)
      else
        (case world_hit E world r 0.001 infinity of
           Some hrec \<Rightarrow>
             (case scatter E (mat_ptr hrec) r hrec g of
                (Some (attenuation, scattered), g1) \<Rightarrow>
                  (case ray_color E scattered world (depth - 1) g1 of
                     (c, g2) \<Rightarrow> (vec_mul attenuation c, g2))
              | (None, g1) \<Rightarrow> (vec3 0 0 0, g1))
         | None \<Rightarrow> (sky_color r, g)))"
  by pat_completeness auto
termination
  by (relation "measure (\<lambda>(E, r, world, depth, g). nat depth)") auto

text \<open>The depth arguments of the successive activations of \<^verbatim>\<open>ray_color\<close>, the first one
  included: the recursion of \<open>ray_color\<close> with its results left out.\<close>

function ray_color_depths :: "'g externals \<Rightarrow> ray \<Rightarrow> hittable_list \<Rightarrow> int \<Rightarrow> 'g \<Rightarrow> int list" where
  "ray_color_depths E r world depth g =
     depth #
     (if depth \<le> 0 then []
      else
        (case world_hit E world r 0.001 infinity of
           Some hrec \<Rightarrow>
             (case scatter E (mat_ptr hrec) r hrec g of
                (Some (attenuation, scattered), g1) \<Rightarrow>
                  ray_color_depths E scattered world (depth - 1) g1
              | (None, g1) \<Rightarrow> [])
         | None \<Rightarrow> []))"
  by pat_completeness auto
termination
  by (relation "measure (\<lambda>(E, r, world, depth, g). nat depth)") auto

declare ray_color.simps [simp del] ray_color_depths.simps [simp del]

text \<open>Concrete inputs for the closed statements: a ray pointing up, a record of a hit
  on a grey diffuse surface and an empty scene in which nothing is hit.\<close>

definition up_ray :: ray where
  "up_ray = ray (vec3 0 0 0) (vec3 0 1 0)"

definition grey_hit :: hit_record where
  "grey_hit = \<lparr>rec_p = vec3 0 0 0, rec_normal = vec3 0 1 0,
     mat_ptr = Lambertian (vec3 0.5 0.5 0.5), rec_t = 1, front_face = True\<rparr>"

definition empty_externals :: "nat externals" where
  "empty_externals = \<lparr>random_double = (\<lambda>g. (1 / 2, Suc g)),
     clock_now = (\<lambda>g. (real g, Suc g)),
     world_hit = (\<lambda>world r t_min t_max. None),
     scatter = (\<lambda>m r hrec g. (None, g)),
     get_ray = (\<lambda>u v g. (up_ray, g)),
     get_color = (\<lambda>c n. Pixel 0 0 0)\<rparr>"

definition down_ray :: ray where
  "down_ray = ray (vec3 0 1 0) (vec3 0 (- 1) 0)"

definition side_ray :: ray where
  "side_ray = ray (vec3 0 1 0) (vec3 1 0 0)"

definition glass_hit :: hit_record where
  "glass_hit = \<lparr>rec_p = vec3 1 1 0, rec_normal = vec3 (- 1) 0 0,
     mat_ptr = Dielectric 1.5, rec_t = 1, front_face = True\<rparr>"

text \<open>A floor and a wall: a ray going up escapes, a ray going sideways hits the wall,
  which absorbs it, every other ray hits the floor, which scatters it upwards with its
  albedo.\<close>

definition floor_externals :: "nat externals" where
  "floor_externals = \<lparr>random_double = (\<lambda>g. (1 / 2, Suc g)),
     clock_now = (\<lambda>g. (real g, Suc g)),
     world_hit = (\<lambda>world r t_min t_max.
       if direction r = vec3 0 1 0 then None
       else if direction r = vec3 1 0 0 then Some glass_hit
       else Some grey_hit),
     scatter = (\<lambda>m r hrec g.
       case m of Lambertian a \<Rightarrow> (Some (a, up_ray), Suc g) | _ \<Rightarrow> (None, g)),
     get_ray = (\<lambda>u v g. (down_ray, g)),
     get_color = (\<lambda>c n. Pixel 0 0 0)\<rparr>"

subsection \<open>\<^verbatim>\<open>random_scene\<close>\<close>

text \<open>Modelled from the spec: \<^verbatim>\<open>random_double(min, max)\<close>, \<^verbatim>\<open>color::random()\<close> and
  \<^verbatim>\<open>color::random(min, max)\<close> are missing ("random-number generation in [0,1) and
  ranges"); they are built from single draws. C++ leaves the order in which the
  arguments of one call are evaluated open; the draws are taken left to right here. No
  statement below depends on which draw feeds which component.\<close>

definition random_double_range :: "'g externals \<Rightarrow> real \<Rightarrow> real \<Rightarrow> 'g \<Rightarrow> real \<times> 'g" where
  "random_double_range E lo hi g =
     (case random_double E g of (d, g1) \<Rightarrow> (lo + (hi - lo) * d, g1))"

definition color_random :: "'g externals \<Rightarrow> 'g \<Rightarrow> color \<times> 'g" where
  "color_random E g =
     (case random_double E g of (a, g1) \<Rightarrow>
      case random_double E g1 of (b, g2) \<Rightarrow>
      case random_double E g2 of (c, g3) \<Rightarrow> (vec3 a b c, g3))"

definition color_random_range :: "'g externals \<Rightarrow> real \<Rightarrow> real \<Rightarrow> 'g \<Rightarrow> color \<times> 'g" where
  "color_random_range E lo hi g =
     (case random_double_range E lo hi g of (a, g1) \<Rightarrow>
      case random_double_range E lo hi g1 of (b, g2) \<Rightarrow>
      case random_double_range E lo hi g2 of (c, g3) \<Rightarrow> (vec3 a b c, g3))"

text \<open>The body of the inner loop of \<^verbatim>\<open>random_scene\<close>, at the grid position \<open>(a, b)\<close>.\<close>

definition scene_step ::
  "'g externals \<Rightarrow> int \<Rightarrow> int \<Rightarrow> hittable_list \<times> 'g \<Rightarrow> hittable_list \<times> 'g" where
  "scene_step E a b acc =
     (case acc of (world, g) \<Rightarrow>
      case random_double E g of (choose_mat, g1) \<Rightarrow>
      case random_double E g1 of (dx, g2) \<Rightarrow>
      case random_double E g2 of (dz, g3) \<Rightarrow>
      (let center = vec3 (real_of_int a + 0.9 * dx) 0.2 (real_of_int b + 0.9 * dz)
       in if vec_length (vec_sub center (vec3 4 0.2 0)) > 0.9 then
            (if choose_mat < 0.8 then
               (case color_random E g3 of (c1, g4) \<Rightarrow>
                case color_random E g4 of (c2, g5) \<Rightarrow>
                  (add (sphere center 0.2 (lambertian (vec_mul c1 c2))) world, g5))
             else if choose_mat < 0.95 then
               (case color_random_range E 0.5 1 g3 of (albedo, g4) \<Rightarrow>
                case random_double_range E 0 0.5 g4 of (fuzz, g5) \<Rightarrow>
                  (add (sphere center 0.2 (metal albedo fuzz)) world, g5))
             else (add (sphere center 0.2 (dielectric 1.5)) world, g3))
          else (world, g3)))"

function scene_loop_b ::
  "'g externals \<Rightarrow> int \<Rightarrow> int \<Rightarrow> hittable_list \<times> 'g \<Rightarrow> hittable_list \<times> 'g" where
  "scene_loop_b E a b acc =
     (if b < 11 then scene_loop_b E a (b + 1) (scene_step E a b acc) else acc)"
  by pat_completeness auto
termination
  by (relation "measure (\<lambda>(E, a, b, acc). nat (11 - b))") auto

function scene_loop_a ::
  "'g externals \<Rightarrow> int \<Rightarrow> hittable_list \<times> 'g \<Rightarrow> hittable_list \<times> 'g" where
  "scene_loop_a E a acc =
     (if a < 11 then scene_loop_a E (a + 1) (scene_loop_b E a (- 11) acc) else acc)"
  by pat_completeness auto
termination
  by (relation "measure (\<lambda>(E, a, acc). nat (11 - a))") auto

definition random_scene :: "'g externals \<Rightarrow> 'g \<Rightarrow> hittable_list \<times> 'g" where
  "random_scene E g =
     (let ground_material = lambertian (vec3 0.5 0.5 0.5);
          world0 = add (sphere (vec3 0 (- 1000) 0) 1000 ground_material) []
      in case scene_loop_a E (- 11) (world0, g) of (world1, g1) \<Rightarrow>
         (let material1 = dielectric 1.5;
              world2 = add (sphere (vec3 0 1 0) 1.0 material1) world1;
              material2 = lambertian (vec3 0.4 0.2 0.1);
              world3 = add (sphere (vec3 (- 4) 1 0) 1.0 material2) world2;
              material3 = metal (vec3 0.7 0.6 0.5) 0.0;
              world4 = add (sphere (vec3 4 1 0) 1.0 material3) world3
          in (world4, g1)))"

declare scene_loop_b.simps [simp del] scene_loop_a.simps [simp del]

text \<open>What the body of the loop lets into the scene: a sphere of radius 0.2 whose center
  lies at height 0.2, more than 0.9 away from \<open>(4, 0.2, 0)\<close>.\<close>

definition small_sphere :: "sphere \<Rightarrow> bool" where
  "small_sphere s \<longleftrightarrow>
     radius s = 0.2 \<and> vec_y (center s) = 0.2
     \<and> vec_length (vec_sub (center s) (vec3 4 0.2 0)) > 0.9"

subsection \<open>\<^verbatim>\<open>ThreadSafeProgress\<close>\<close>

text \<open>Modelled from the spec: \<^verbatim>\<open>timer.h\<close> is missing. A \<^verbatim>\<open>Timer\<close> keeps the clock reading
  of its last reset; \<^verbatim>\<open>getElapsedS\<close> reads the clock and returns the seconds since then.\<close>

record Timer =
  started :: real

definition Timer_reset :: "'g externals \<Rightarrow> 'g \<Rightarrow> Timer \<times> 'g" where
  "Timer_reset E g = (case clock_now E g of (now, g1) \<Rightarrow> (\<lparr>started = now\<rparr>, g1))"

definition getElapsedS :: "'g externals \<Rightarrow> Timer \<Rightarrow> 'g \<Rightarrow> real \<times> 'g" where
  "getElapsedS E tm g = (case clock_now E g of (now, g1) \<Rightarrow> (now - started tm, g1))"

record ThreadSafeProgress =
  linesLeft :: "int list"
  timer :: Timer
  estimatedTime :: real

text \<open>What one worker does, as far as another part of the program can see it: a call of
  \<^verbatim>\<open>update(thread, lineCount)\<close>, one sample \<open>s\<close> taken for the pixel \<open>(i, j)\<close> (one call of
  \<^verbatim>\<open>ray_color\<close> added to \<^verbatim>\<open>pixel_color\<close>), one \<^verbatim>\<open>pushPixel\<close> for the pixel \<open>(i, j)\<close>. The row
  \<open>j\<close> comes first in \<open>Sample\<close> and \<open>Push\<close>.\<close>

datatype event = Update int int | Sample int int int | Push int int

text \<open>The state of the process outside the image a worker fills: the singleton, the
  generator and clock, the status lines written to \<^verbatim>\<open>std::cerr\<close> (each the counters and
  the estimate in minutes), and a log of the events above, which the source does not
  keep: it is there for the statements about the order of the calls.\<close>

record 'g process =
  singleton :: ThreadSafeProgress
  gen :: 'g
  cerr :: "(int list \<times> real) list"
  calls :: "event list"

text \<open>\<^verbatim>\<open>linesLeft[thread] = lineCount\<close> outside the vector is undefined behaviour.\<close>

datatype error = OutOfBounds

text \<open>The singleton before \<^verbatim>\<open>init\<close>: no counters, \<^verbatim>\<open>estimatedTime = 0.0\<close>, and a timer
  whose start \<^verbatim>\<open>init\<close> overwrites.\<close>

definition fresh_process :: "'g \<Rightarrow> 'g process" where
  "fresh_process g =
     \<lparr>singleton = \<lparr>linesLeft = [], timer = \<lparr>started = 0\<rparr>, estimatedTime = 0.0\<rparr>,
      gen = g, cerr = [], calls = []\<rparr>"

definition init :: "'g externals \<Rightarrow> int \<Rightarrow> 'g process \<Rightarrow> 'g process" where
  "init E n st =
     (case Timer_reset E (gen st) of (tm, g1) \<Rightarrow>
        st\<lparr>singleton := (singleton st)
              \<lparr>linesLeft := linesLeft (singleton st) @ replicate (nat n) 0, timer := tm\<rparr>,
           gen := g1\<rparr>)"

definition update :: "'g externals \<Rightarrow> int \<Rightarrow> int \<Rightarrow> 'g process \<Rightarrow> error + 'g process" where
  "update E thread lineCount st =
     (let st1 =
        (if thread = 0 then
           (case getElapsedS E (timer (singleton st)) (gen st) of (elapsed, g1) \<Rightarrow>
            case Timer_reset E g1 of (tm, g2) \<Rightarrow>
              st\<lparr>singleton := (singleton st)
                    \<lparr>estimatedTime := elapsed * real_of_int lineCount, timer := tm\<rparr>,
                 gen := g2\<rparr>)
         else st)
      in if 0 \<le> thread \<and> nat thread < length (linesLeft (singleton st1)) then
           (let p = (singleton st1)
                  \<lparr>linesLeft := (linesLeft (singleton st1))[nat thread := lineCount]\<rparr>
            in Inr (st1\<lparr>singleton := p,
                        cerr := cerr st1 @ [(linesLeft p, estimatedTime p / 60.0)]\<rparr>))
         else Inl OutOfBounds)"

text \<open>A sequence of calls of \<^verbatim>\<open>update\<close>, by any threads: the mutex makes each call one
  step.\<close>

fun updates :: "'g externals \<Rightarrow> (int \<times> int) list \<Rightarrow> 'g process \<Rightarrow> error + 'g process" where
  "updates E [] st = Inr st"
| "updates E ((thread, lineCount) # cs) st =
     (case update E thread lineCount st of
        Inl e \<Rightarrow> Inl e
      | Inr st1 \<Rightarrow> updates E cs st1)"

text \<open>The state of the tracker is sound for the clock: the estimate and every estimate
  written so far are not negative, and the timer was not started after the next reading
  of the clock.\<close>

definition progress_ok :: "'g externals \<Rightarrow> 'g process \<Rightarrow> bool" where
  "progress_ok E st \<longleftrightarrow>
     0 \<le> estimatedTime (singleton st)
     \<and> started (timer (singleton st)) \<le> fst (clock_now E (gen st))
     \<and> list_all (\<lambda>l. 0 \<le> snd l) (cerr st)"

subsection \<open>\<^verbatim>\<open>renderImage\<close>\<close>

text \<open>The image coordinates of a sample: \<^verbatim>\<open>(i + random_double()) / (image_width - 1)\<close>
  and \<^verbatim>\<open>(j + random_double()) / (image_height - 1)\<close>.\<close>

definition pixel_u :: "config \<Rightarrow> int \<Rightarrow> real \<Rightarrow> real" where
  "pixel_u cfg i d = (real_of_int i + d) / real_of_int (image_width cfg - 1)"

definition pixel_v :: "config \<Rightarrow> int \<Rightarrow> real \<Rightarrow> real" where
  "pixel_v cfg j d = (real_of_int j + d) / real_of_int (image_height cfg - 1)"

text \<open>The body of the loop over the samples \<open>s\<close> of one pixel.\<close>

definition sample_step ::
  "'g externals \<Rightarrow> config \<Rightarrow> hittable_list \<Rightarrow> int \<Rightarrow> int \<Rightarrow> int \<Rightarrow>
   color \<times> 'g process \<Rightarrow> color \<times> 'g process" where
  "sample_step E cfg world j i s acc =
     (case acc of (pixel_color, st) \<Rightarrow>
      case random_double E (gen st) of (d1, g1) \<Rightarrow>
      case random_double E g1 of (d2, g2) \<Rightarrow>
      case get_ray E (pixel_u cfg i d1) (pixel_v cfg j d2) g2 of (r, g3) \<Rightarrow>
      case ray_color E r world (max_depth cfg) g3 of (c, g4) \<Rightarrow>
        (vec_add pixel_color c, st\<lparr>gen := g4, calls := calls st @ [Sample j i s]\<rparr>))"

function sample_loop ::
  "'g externals \<Rightarrow> config \<Rightarrow> hittable_list \<Rightarrow> int \<Rightarrow> int \<Rightarrow> int \<Rightarrow>
   color \<times> 'g process \<Rightarrow> color \<times> 'g process" where
  "sample_loop E cfg world j i s acc =
     (if s < samples_per_pixel cfg
      then sample_loop E cfg world j i (s + 1) (sample_step E cfg world j i s acc)
      else acc)"
  by pat_completeness auto
termination
  by (relation "measure (\<lambda>(E, cfg, world, j, i, s, acc). nat (samples_per_pixel cfg - s))")
    auto

text \<open>The body of the loop over the pixels \<open>i\<close> of one row.\<close>

definition pixel_step ::
  "'g externals \<Rightarrow> config \<Rightarrow> hittable_list \<Rightarrow> int \<Rightarrow> int \<Rightarrow>
   Image \<times> 'g process \<Rightarrow> Image \<times> 'g process" where
  "pixel_step E cfg world j i acc =
     (case acc of (img, st) \<Rightarrow>
      case sample_loop E cfg world j i 0 (vec3 0 0 0, st) of (pixel_color, st1) \<Rightarrow>
        (let pixel = get_color E pixel_color (samples_per_pixel cfg)
         in (pushPixel pixel img, st1\<lparr>calls := calls st1 @ [Push j i]\<rparr>)))"

function pixel_loop ::
  "'g externals \<Rightarrow> config \<Rightarrow> hittable_list \<Rightarrow> int \<Rightarrow> int \<Rightarrow>
   Image \<times> 'g process \<Rightarrow> Image \<times> 'g process" where
  "pixel_loop E cfg world j i acc =
     (if i < image_width cfg
      then pixel_loop E cfg world j (i + 1) (pixel_step E cfg world j i acc)
      else acc)"
  by pat_completeness auto
termination
  by (relation "measure (\<lambda>(E, cfg, world, j, i, acc). nat (image_width cfg - i))") auto

text \<open>The loop over the rows, from \<open>image_height - 1\<close> down to 0. The \<^verbatim>\<open>unsigned int\<close>
  \<open>threadIndex\<close> is converted to the \<^verbatim>\<open>int\<close> that \<^verbatim>\<open>update\<close> takes.\<close>

function row_loop ::
  "'g externals \<Rightarrow> config \<Rightarrow> hittable_list \<Rightarrow> nat \<Rightarrow> int \<Rightarrow>
   Image \<times> 'g process \<Rightarrow> error + Image \<times> 'g process" where
  "row_loop E cfg world threadIndex j acc =
     (if j \<ge> 0 then
        (case acc of (img, st) \<Rightarrow>
         case update E (int threadIndex) j
                (st\<lparr>calls := calls st @ [Update (int threadIndex) j]\<rparr>) of
           Inl e \<Rightarrow> Inl e
         | Inr st1 \<Rightarrow>
             row_loop E cfg world threadIndex (j - 1) (pixel_loop E cfg world j 0 (img, st1)))
      else Inr acc)"
  by pat_completeness auto
termination
  by (relation "measure (\<lambda>(E, cfg, world, threadIndex, j, acc). nat (j + 1))") auto

definition renderImage ::
  "'g externals \<Rightarrow> config \<Rightarrow> hittable_list \<Rightarrow> nat \<Rightarrow> Image \<Rightarrow> 'g process \<Rightarrow>
   error + Image \<times> 'g process" where
  "renderImage E cfg world threadIndex img st =
     row_loop E cfg world threadIndex (image_height cfg - 1) (img, st)"

declare sample_loop.simps [simp del] pixel_loop.simps [simp del] row_loop.simps [simp del]

text \<open>The events of one run of \<^verbatim>\<open>renderImage\<close> (none when the run is undefined), and the
  pixels it pushed.\<close>

definition render_calls ::
  "'g externals \<Rightarrow> config \<Rightarrow> hittable_list \<Rightarrow> nat \<Rightarrow> Image \<Rightarrow> 'g process \<Rightarrow> event list" where
  "render_calls E cfg world threadIndex img st =
     (case renderImage E cfg world threadIndex img st of
        Inl e \<Rightarrow> []
      | Inr (img1, st1) \<Rightarrow> drop (length (calls st)) (calls st1))"


text \<open>The shape of that sequence, written out: per row, from the last index to 0, the
  update and then the pixels from left to right; per pixel its samples and then its
  push.\<close>

definition pixel_events :: "config \<Rightarrow> int \<Rightarrow> int \<Rightarrow> event list" where
  "pixel_events cfg j i = map (Sample j i) [0..samples_per_pixel cfg - 1] @ [Push j i]"

definition row_events :: "config \<Rightarrow> int \<Rightarrow> int \<Rightarrow> event list" where
  "row_events cfg thread j =
     Update thread j # concat (map (pixel_events cfg j) [0..image_width cfg - 1])"

definition render_events :: "config \<Rightarrow> int \<Rightarrow> event list" where
  "render_events cfg thread =
     concat (map (row_events cfg thread) (rev [0..image_height cfg - 1]))"


fun samples_of :: "int \<Rightarrow> int \<Rightarrow> event list \<Rightarrow> nat" where
  "samples_of j i [] = 0"
| "samples_of j i (Sample j' i' s # es) =
     (if j' = j \<and> i' = i then Suc (samples_of j i es) else samples_of j i es)"
| "samples_of j i (Update t n # es) = samples_of j i es"
| "samples_of j i (Push j' i' # es) = samples_of j i es"

text \<open>The order in which the two loops of \<^verbatim>\<open>renderImage\<close> reach the positions
  \<open>(j, i)\<close>: the rows from the index \<open>image_height - 1\<close> down to 0, each row from the
  column 0 upwards.\<close>

definition loop_order :: "config \<Rightarrow> (int \<times> int) list" where
  "loop_order cfg =
     concat (map (\<lambda>j. map (\<lambda>i. (j, i)) [0..image_width cfg - 1])
       (rev [0..image_height cfg - 1]))"

text \<open>Modelled from the spec's words, for comparison with \<open>loop_order\<close>: the "strict
  scanline order (top row to bottom row, left to right within a row)" of the image
  buffer, with the rows named as the render worker's section names them, the first row
  (index 0) the top and the last row (index \<open>image_height - 1\<close>) the bottom.\<close>

definition spec_top_to_bottom :: "config \<Rightarrow> (int \<times> int) list" where
  "spec_top_to_bottom cfg =
     concat (map (\<lambda>j. map (\<lambda>i. (j, i)) [0..image_width cfg - 1])
       [0..image_height cfg - 1])"

text \<open>What a worker is to compute, written without the loops, for comparison with them.
  One sample of the pixel \<open>(i, j)\<close>: two jitter draws, the camera ray through the
  jittered position, and its colour. The colours of \<open>n\<close> successive samples. The pixel of
  a position: the tone-mapped sum of \<open>samples_per_pixel\<close> successive samples, starting
  from black. The pixels of the columns of a row and of the rows of an image, each paired
  with its position, the generator handed from one to the next; before a row the
  generator passes through \<^verbatim>\<open>update\<close>, which reads the clock twice for the thread 0.\<close>

definition sample_color ::
  "'g externals \<Rightarrow> config \<Rightarrow> hittable_list \<Rightarrow> int \<Rightarrow> int \<Rightarrow> 'g \<Rightarrow> color \<times> 'g" where
  "sample_color E cfg world j i g =
     (case random_double E g of (d1, g1) \<Rightarrow>
      case random_double E g1 of (d2, g2) \<Rightarrow>
      case get_ray E (pixel_u cfg i d1) (pixel_v cfg j d2) g2 of (r, g3) \<Rightarrow>
        ray_color E r world (max_depth cfg) g3)"

fun sample_colors ::
  "'g externals \<Rightarrow> config \<Rightarrow> hittable_list \<Rightarrow> int \<Rightarrow> int \<Rightarrow> nat \<Rightarrow> 'g \<Rightarrow> color list \<times> 'g" where
  "sample_colors E cfg world j i 0 g = ([], g)"
| "sample_colors E cfg world j i (Suc n) g =
     (case sample_color E cfg world j i g of (c, g1) \<Rightarrow>
      case sample_colors E cfg world j i n g1 of (cs, g2) \<Rightarrow> (c # cs, g2))"

definition pixel_value ::
  "'g externals \<Rightarrow> config \<Rightarrow> hittable_list \<Rightarrow> int \<Rightarrow> int \<Rightarrow> 'g \<Rightarrow> Pixel \<times> 'g" where
  "pixel_value E cfg world j i g =
     (case sample_colors E cfg world j i (nat (samples_per_pixel cfg)) g of (cs, g1) \<Rightarrow>
        (get_color E (foldl vec_add (vec3 0 0 0) cs) (samples_per_pixel cfg), g1))"

fun row_pixels ::
  "'g externals \<Rightarrow> config \<Rightarrow> hittable_list \<Rightarrow> int \<Rightarrow> int list \<Rightarrow> 'g \<Rightarrow>
   ((int \<times> int) \<times> Pixel) list \<times> 'g" where
  "row_pixels E cfg world j [] g = ([], g)"
| "row_pixels E cfg world j (i # cols) g =
     (case pixel_value E cfg world j i g of (px, g1) \<Rightarrow>
      case row_pixels E cfg world j cols g1 of (ps, g2) \<Rightarrow> (((j, i), px) # ps, g2))"

definition update_gen :: "'g externals \<Rightarrow> int \<Rightarrow> 'g \<Rightarrow> 'g" where
  "update_gen E thread g =
     (if thread = 0 then snd (clock_now E (snd (clock_now E g))) else g)"

fun image_pixels ::
  "'g externals \<Rightarrow> config \<Rightarrow> hittable_list \<Rightarrow> int \<Rightarrow> int list \<Rightarrow> 'g \<Rightarrow>
   ((int \<times> int) \<times> Pixel) list" where
  "image_pixels E cfg world thread [] g = []"
| "image_pixels E cfg world thread (j # rows) g =
     (case row_pixels E cfg world j [0..image_width cfg - 1] (update_gen E thread g) of
        (ps, g1) \<Rightarrow> ps @ image_pixels E cfg world thread rows g1)"

text \<open>A scene and a camera that make the position of a pixel visible in its value: the
  jitter is 0, the ray through \<open>(u, v)\<close> starts at the point \<open>(i, j, 0)\<close>, every such ray
  hits a surface that scatters it straight up with its starting point as attenuation,
  the ray going up escapes to the sky, and the tone mapping undoes the sky colour and the
  number of samples: the pixel of the position \<open>(i, j)\<close> is \<open>Pixel i j 0\<close>.\<close>

definition probe_externals :: "config \<Rightarrow> nat externals" where
  "probe_externals cfg = \<lparr>random_double = (\<lambda>g. (0, Suc g)),
     clock_now = (\<lambda>g. (real g, Suc g)),
     world_hit = (\<lambda>world r t_min t_max.
       if direction r = vec3 0 1 0 then None else Some (grey_hit\<lparr>rec_p := origin r\<rparr>)),
     scatter = (\<lambda>m r hrec g. (Some (rec_p hrec, up_ray), g)),
     get_ray = (\<lambda>u v g.
       (ray (vec3 (u * real_of_int (image_width cfg - 1))
                  (v * real_of_int (image_height cfg - 1)) 0) (vec3 0 0 1), g)),
     get_color = (\<lambda>c n.
       Pixel \<lfloor>2 * vec_x c / real_of_int n\<rfloor> \<lfloor>vec_y c / (0.7 * real_of_int n)\<rfloor> 0)\<rparr>"


text \<open>The row an event renders, and the order "the update for a row comes after the
  rendering of that row": no sample or push of the row \<open>j\<close> follows a call
  \<^verbatim>\<open>update(thread, j)\<close>.\<close>

fun row_of :: "event \<Rightarrow> int option" where
  "row_of (Update t n) = None"
| "row_of (Sample j i s) = Some j"
| "row_of (Push j i) = Some j"

fun reports_follow_rows :: "event list \<Rightarrow> bool" where
  "reports_follow_rows [] = True"
| "reports_follow_rows (Update t n # es) =
     (list_all (\<lambda>e. row_of e \<noteq> Some n) es \<and> reports_follow_rows es)"
| "reports_follow_rows (Sample j i s # es) = reports_follow_rows es"
| "reports_follow_rows (Push j i # es) = reports_follow_rows es"

text \<open>The state \<^verbatim>\<open>main\<close> hands to the workers, and an image with no pixel pushed.\<close>

definition main_process :: "'g externals \<Rightarrow> config \<Rightarrow> 'g \<Rightarrow> 'g process" where
  "main_process E cfg g = init E (threadCount cfg) (fresh_process g)"

definition new_image :: "config \<Rightarrow> Image" where
  "new_image cfg = \<lparr>img_width = image_width cfg, img_height = image_height cfg, pixels = []\<rparr>"

text \<open>A small setting for closed statements: 3 by 2 pixels, 5 samples shared by 2
  workers.\<close>

definition small_cfg :: config where
  "small_cfg = \<lparr>image_width = 3, samples_per_pixel_total = 5, threadCount = 2,
     aspect_ratio = 3 / 2, max_depth = 2\<rparr>"

section \<open>Theorems\<close>

lemma sky_color_up_ray: "sky_color up_ray = vec3 0.5 0.7 1"
  by (simp add: sky_color_def up_ray_def unit_vector_def vec_length_def vec_scale_def
      vec_add_def)

text \<open>C2: when \<open>depth \<le> 0\<close>, \<^verbatim>\<open>ray_color\<close> returns black, whatever the ray would hit, and
  draws no random number.\<close>

theorem ray_color_depth_exhausted:
  "depth \<le> 0 \<Longrightarrow> ray_color E r world depth g = (vec3 0 0 0, g)"
  by (simp add: ray_color.simps)

theorem ray_color_depth_exhausted_witness:
  "(0::int) \<le> 0 \<and> world_hit floor_externals [] down_ray 0.001 infinity = Some grey_hit
     \<and> ray_color floor_externals down_ray [] 0 0 = (vec3 0 0 0, 0)"
  using ray_color_depth_exhausted [of 0 floor_externals down_ray "[]" 0]
  by (simp add: floor_externals_def down_ray_def)

text \<open>C1: for \<open>depth > 0\<close> and a ray that hits geometry (\<^verbatim>\<open>world.hit(r, 0.001, infinity, rec)\<close>
  succeeds), \<^verbatim>\<open>ray_color\<close> returns \<open>attenuation * ray_color(scattered, world, depth - 1)\<close>
  when the material of the hit scatters the ray, and black when it does not. The generator
  is handed on: the recursive call starts from the state \<open>scatter\<close> left.\<close>

theorem ray_color_hit:
  assumes "0 < depth" and "world_hit E world r 0.001 infinity = Some hrec"
  shows "(\<forall>attenuation scattered g1.
            scatter E (mat_ptr hrec) r hrec g = (Some (attenuation, scattered), g1) \<longrightarrow>
            ray_color E r world depth g =
              (vec_mul attenuation (fst (ray_color E scattered world (depth - 1) g1)),
               snd (ray_color E scattered world (depth - 1) g1)))
       \<and> (\<forall>g1. scatter E (mat_ptr hrec) r hrec g = (None, g1) \<longrightarrow>
            ray_color E r world depth g = (vec3 0 0 0, g1))"
  using assms
  by (subst ray_color.simps, subst (3) ray_color.simps) (simp add: split_beta)

theorem ray_color_hit_witness:
  "(0::int) < 2
   \<and> world_hit floor_externals [] down_ray 0.001 infinity = Some grey_hit
   \<and> scatter floor_externals (mat_ptr grey_hit) down_ray grey_hit 0
       = (Some (vec3 0.5 0.5 0.5, up_ray), 1)
   \<and> ray_color floor_externals down_ray [] 2 0
       = (vec_mul (vec3 0.5 0.5 0.5) (fst (ray_color floor_externals up_ray [] 1 1)),
          snd (ray_color floor_externals up_ray [] 1 1))
   \<and> ray_color floor_externals down_ray [] 2 0 = (vec3 0.25 0.35 0.5, 1)
   \<and> world_hit floor_externals [] side_ray 0.001 infinity = Some glass_hit
   \<and> scatter floor_externals (mat_ptr glass_hit) side_ray glass_hit 0 = (None, 0)
   \<and> ray_color floor_externals side_ray [] 2 0 = (vec3 0 0 0, 0)"
proof -
  have hit: "world_hit floor_externals [] down_ray 0.001 infinity = Some grey_hit"
    by (simp add: floor_externals_def down_ray_def)
  have sc: "scatter floor_externals (mat_ptr grey_hit) down_ray grey_hit 0
       = (Some (vec3 0.5 0.5 0.5, up_ray), 1)"
    by (simp add: floor_externals_def grey_hit_def)
  have hit': "world_hit floor_externals [] side_ray 0.001 infinity = Some glass_hit"
    by (simp add: floor_externals_def side_ray_def)
  have sc': "scatter floor_externals (mat_ptr glass_hit) side_ray glass_hit 0 = (None, 0)"
    by (simp add: floor_externals_def glass_hit_def)
  have up: "ray_color floor_externals up_ray [] 1 1 = (vec3 0.5 0.7 1, 1)"
    by (simp add: ray_color.simps floor_externals_def up_ray_def sky_color_up_ray [unfolded up_ray_def])
  have two: "(0::int) < 2" by simp
  from ray_color_hit [OF two hit, of 0] sc
  have a: "ray_color floor_externals down_ray [] 2 0
       = (vec_mul (vec3 0.5 0.5 0.5) (fst (ray_color floor_externals up_ray [] 1 1)),
          snd (ray_color floor_externals up_ray [] 1 1))"
    by simp
  from ray_color_hit [OF two hit', of 0] sc'
  have b: "ray_color floor_externals side_ray [] 2 0 = (vec3 0 0 0, 0)"
    by simp
  from a up have c: "ray_color floor_externals down_ray [] 2 0 = (vec3 0.25 0.35 0.5, 1)"
    by (simp add: vec_mul_def)
  from two hit sc a c hit' sc' b show ?thesis by blast
qed

text \<open>C3, as amended: for a ray that hits nothing and every \<open>depth > 0\<close>, \<^verbatim>\<open>ray_color\<close>
  returns the sky gradient \<open>(1 - t) * (1, 1, 1) + t * (0.5, 0.7, 1.0)\<close> with
  \<open>t = 0.5 * (unit_direction.y + 1)\<close>, draws no random number, and returns the same
  colour for every positive depth. (For \<open>depth \<le> 0\<close> the first test of the function
  returns black: see the counterexample.)\<close>

theorem ray_color_no_hit:
  assumes "0 < depth" and "world_hit E world r 0.001 infinity = None"
  shows "ray_color E r world depth g = (sky_color r, g)
       \<and> sky_color r =
           (let t = 0.5 * (vec_y (unit_vector (direction r)) + 1)
            in vec_add (vec_scale (1 - t) (vec3 1 1 1)) (vec_scale t (vec3 0.5 0.7 1)))
       \<and> (\<forall>d. 0 < d \<longrightarrow> ray_color E r world d g = ray_color E r world depth g)"
  using assms by (simp add: ray_color.simps sky_color_def)

theorem ray_color_no_hit_witness:
  "(0::int) < 10 \<and> world_hit empty_externals [] up_ray 0.001 infinity = None
   \<and> ray_color empty_externals up_ray [] 10 0 = (vec3 0.5 0.7 1, 0)
   \<and> ray_color empty_externals up_ray [] 1 0 = ray_color empty_externals up_ray [] 10 0"
proof -
  have ten: "(0::int) < 10" by simp
  have miss: "world_hit empty_externals [] up_ray 0.001 infinity = None"
    by (simp add: empty_externals_def)
  from ray_color_no_hit [OF ten miss, of 0] ten miss show ?thesis
    by (simp add: sky_color_up_ray)
qed

text \<open>C3 as stated fails for the depth 0: a ray that hits nothing is black there, not
  sky-coloured, so the result does depend on \<^verbatim>\<open>max_depth\<close>.\<close>

theorem ray_color_no_hit_counterexample:
  "world_hit empty_externals [] up_ray 0.001 infinity = None
   \<and> ray_color empty_externals up_ray [] 0 0 = (vec3 0 0 0, 0)
   \<and> sky_color up_ray = vec3 0.5 0.7 1
   \<and> fst (ray_color empty_externals up_ray [] 0 0) \<noteq> sky_color up_ray
   \<and> ray_color empty_externals up_ray [] 0 0 \<noteq> ray_color empty_externals up_ray [] 10 0"
  by (simp add: ray_color.simps empty_externals_def sky_color_up_ray)

lemma ray_color_depths_unfold:
  "ray_color_depths E r world depth g = [depth] \<or>
   (0 < depth \<and> (\<exists>r' g'. ray_color_depths E r world depth g =
      depth # ray_color_depths E r' world (depth - 1) g'))"
  by (subst ray_color_depths.simps, subst (2) ray_color_depths.simps)
    (auto split: option.splits prod.splits)

lemma ray_color_depths_length:
  "length (ray_color_depths E r world depth g) \<le> Suc (nat (max depth 0))"
proof (induction "nat depth" arbitrary: depth r g)
  case 0
  then have "depth \<le> 0" by simp
  then show ?case by (simp add: ray_color_depths.simps)
next
  case (Suc n)
  from ray_color_depths_unfold [of E r world depth g] show ?case
  proof
    assume "ray_color_depths E r world depth g = [depth]"
    then show ?thesis by simp
  next
    assume "0 < depth \<and> (\<exists>r' g'. ray_color_depths E r world depth g =
      depth # ray_color_depths E r' world (depth - 1) g')"
    then obtain r' g' where pos: "0 < depth"
      and eq: "ray_color_depths E r world depth g =
        depth # ray_color_depths E r' world (depth - 1) g'"
      by blast
    from Suc.hyps(2) have "n = nat (depth - 1)" by simp
    from Suc.hyps(1) [OF this, of r' g'] pos show ?thesis
      by (simp add: eq)
  qed
qed

lemma ray_color_depths_countdown:
  "ray_color_depths E r world depth g =
     map (\<lambda>k. depth - int k) [0..<length (ray_color_depths E r world depth g)]"
proof (induction "nat depth" arbitrary: depth r g)
  case 0
  then have "depth \<le> 0" by simp
  then show ?case by (simp add: ray_color_depths.simps)
next
  case (Suc n)
  from ray_color_depths_unfold [of E r world depth g] show ?case
  proof
    assume "ray_color_depths E r world depth g = [depth]"
    then show ?thesis by simp
  next
    assume "0 < depth \<and> (\<exists>r' g'. ray_color_depths E r world depth g =
      depth # ray_color_depths E r' world (depth - 1) g')"
    then obtain r' g' where pos: "0 < depth"
      and eq: "ray_color_depths E r world depth g =
        depth # ray_color_depths E r' world (depth - 1) g'"
      by blast
    from Suc.hyps(2) have "n = nat (depth - 1)" by simp
    from Suc.hyps(1) [OF this, of r' g']
    have ih: "ray_color_depths E r' world (depth - 1) g' =
       map (\<lambda>k. depth - 1 - int k)
         [0..<length (ray_color_depths E r' world (depth - 1) g')]" .
    have "map (\<lambda>k. depth - int k) [0..<Suc m]
        = depth # map (\<lambda>k. depth - 1 - int k) [0..<m]" for m
      by (simp add: map_upt_Suc del: upt_Suc)
    with ih show ?thesis
      by (simp add: eq del: upt_Suc)
  qed
qed

text \<open>C4: \<^verbatim>\<open>ray_color\<close> terminates for every ray, scene and integer depth. The function
  above is defined by its recursion with a termination proof (the measure is the depth),
  so it is total whenever \<^verbatim>\<open>hit\<close> and \<^verbatim>\<open>scatter\<close> return. Its activations form a
  countdown: the \<open>k\<close>-th one runs at \<open>depth - k\<close>, each recursive call lowering the depth
  by exactly one, and there are at most \<open>max(depth, 0)\<close> recursive calls (bounces) after
  the first activation, none of them at a depth below 0.\<close>

theorem ray_color_terminates:
  "ray_color_depths E r world depth g =
     map (\<lambda>k. depth - int k) [0..<length (ray_color_depths E r world depth g)]
   \<and> length (ray_color_depths E r world depth g) - 1 \<le> nat (max depth 0)
   \<and> ray_color_depths E r world depth g \<noteq> []"
proof -
  have "length (ray_color_depths E r world depth g) - 1 \<le> nat (max depth 0)"
    using ray_color_depths_length [of E r world depth g] by simp
  moreover have "ray_color_depths E r world depth g \<noteq> []"
    by (subst ray_color_depths.simps) simp
  ultimately show ?thesis
    using ray_color_depths_countdown [of E r world depth g] by blast
qed

text \<open>A ray sent down to the floor at depth 2 is scattered upwards once and escapes: two
  activations, at the depths 2 and 1.\<close>

theorem ray_color_terminates_witness:
  "ray_color_depths floor_externals down_ray [] 2 0 = [2, 1]
   \<and> length (ray_color_depths floor_externals down_ray [] 2 0) - 1 \<le> nat (max 2 0)"
  using ray_color_terminates [of floor_externals down_ray "[]" 2 0]
  by (simp add: ray_color_depths.simps floor_externals_def down_ray_def up_ray_def grey_hit_def)

lemma image_width_main_cfg: "image_width main_cfg = 600"
  by (simp add: main_cfg_def)

lemma image_height_main_cfg: "image_height main_cfg = 337"
  by (simp add: image_height_def main_cfg_def static_cast_int_def)

lemma samples_per_pixel_main_cfg: "samples_per_pixel main_cfg = 1"
  by (simp add: samples_per_pixel_def main_cfg_def signed_divide_int_def)

text \<open>C6, as amended: for a pixel position \<open>(i, j)\<close> inside the image and jitter draws in
  \<open>[0, 1)\<close>, the coordinates handed to the camera satisfy
  \<open>0 \<le> u < image_width / (image_width - 1)\<close> and
  \<open>0 \<le> v < image_height / (image_height - 1)\<close>; \<open>u < 1\<close> exactly for the columns left of
  the last one and \<open>v < 1\<close> exactly for the rows below the last one. (In exact
  arithmetic; the image is at least two pixels wide and high, as the divisors
  \<open>image_width - 1\<close> and \<open>image_height - 1\<close> require.)\<close>

theorem pixel_coordinates:
  assumes "1 < image_width cfg" and "1 < image_height cfg"
    and "0 \<le> i" and "i < image_width cfg" and "0 \<le> j" and "j < image_height cfg"
    and "0 \<le> d1" and "d1 < 1" and "0 \<le> d2" and "d2 < 1"
  shows "0 \<le> pixel_u cfg i d1
       \<and> pixel_u cfg i d1 < real_of_int (image_width cfg) / real_of_int (image_width cfg - 1)
       \<and> 0 \<le> pixel_v cfg j d2
       \<and> pixel_v cfg j d2 < real_of_int (image_height cfg) / real_of_int (image_height cfg - 1)
       \<and> (pixel_u cfg i d1 < 1 \<longleftrightarrow> i < image_width cfg - 1)
       \<and> (pixel_v cfg j d2 < 1 \<longleftrightarrow> j < image_height cfg - 1)"
proof -
  have w: "0 < real_of_int (image_width cfg - 1)" using assms(1) by simp
  have h: "0 < real_of_int (image_height cfg - 1)" using assms(2) by simp
  have i0: "0 \<le> real_of_int i + d1" using assms by simp
  have j0: "0 \<le> real_of_int j + d2" using assms by simp
  have i1: "real_of_int i + d1 < real_of_int (image_width cfg)"
  proof -
    have "i + 1 \<le> image_width cfg" using assms(4) by simp
    then have "real_of_int i + 1 \<le> real_of_int (image_width cfg)" by linarith
    with assms(8) show ?thesis by linarith
  qed
  have j1: "real_of_int j + d2 < real_of_int (image_height cfg)"
  proof -
    have "j + 1 \<le> image_height cfg" using assms(6) by simp
    then have "real_of_int j + 1 \<le> real_of_int (image_height cfg)" by linarith
    with assms(10) show ?thesis by linarith
  qed
  have iu: "real_of_int i + d1 < real_of_int (image_width cfg - 1)
      \<longleftrightarrow> i < image_width cfg - 1"
  proof
    assume "real_of_int i + d1 < real_of_int (image_width cfg - 1)"
    with assms(7) have "real_of_int i < real_of_int (image_width cfg - 1)" by linarith
    then show "i < image_width cfg - 1" by linarith
  next
    assume "i < image_width cfg - 1"
    then have "i + 1 \<le> image_width cfg - 1" by simp
    then have "real_of_int i + 1 \<le> real_of_int (image_width cfg - 1)" by linarith
    with assms(8) show "real_of_int i + d1 < real_of_int (image_width cfg - 1)" by linarith
  qed
  have jv: "real_of_int j + d2 < real_of_int (image_height cfg - 1)
      \<longleftrightarrow> j < image_height cfg - 1"
  proof
    assume "real_of_int j + d2 < real_of_int (image_height cfg - 1)"
    with assms(9) have "real_of_int j < real_of_int (image_height cfg - 1)" by linarith
    then show "j < image_height cfg - 1" by linarith
  next
    assume "j < image_height cfg - 1"
    then have "j + 1 \<le> image_height cfg - 1" by simp
    then have "real_of_int j + 1 \<le> real_of_int (image_height cfg - 1)" by linarith
    with assms(10) show "real_of_int j + d2 < real_of_int (image_height cfg - 1)" by linarith
  qed
  have "0 \<le> pixel_u cfg i d1"
    unfolding pixel_u_def using w i0 by simp
  moreover have "pixel_u cfg i d1
      < real_of_int (image_width cfg) / real_of_int (image_width cfg - 1)"
    unfolding pixel_u_def using w i1 by (simp add: divide_strict_right_mono)
  moreover have "0 \<le> pixel_v cfg j d2"
    unfolding pixel_v_def using h j0 by simp
  moreover have "pixel_v cfg j d2
      < real_of_int (image_height cfg) / real_of_int (image_height cfg - 1)"
    unfolding pixel_v_def using h j1 by (simp add: divide_strict_right_mono)
  moreover have "pixel_u cfg i d1 < 1 \<longleftrightarrow> i < image_width cfg - 1"
    unfolding pixel_u_def using w iu by (simp only: divide_less_eq_1_pos)
  moreover have "pixel_v cfg j d2 < 1 \<longleftrightarrow> j < image_height cfg - 1"
    unfolding pixel_v_def using h jv by (simp only: divide_less_eq_1_pos)
  ultimately show ?thesis by blast
qed

theorem pixel_coordinates_witness:
  "pixel_u main_cfg 300 (1 / 2) = 601 / 1198 \<and> pixel_u main_cfg 300 (1 / 2) < 1
   \<and> pixel_v main_cfg 336 (1 / 4) = 1345 / 1344
   \<and> pixel_v main_cfg 336 (1 / 4) < 337 / 336"
  using pixel_coordinates [of main_cfg 300 336 "1 / 2" "1 / 4"]
  by (simp add: image_height_main_cfg image_width_main_cfg pixel_u_def pixel_v_def)

text \<open>C6 as stated fails in the last column and in the row of the largest index of the
  image the source renders (600 by 337): there the divisor is the index itself, and any
  positive jitter puts the coordinate above 1.\<close>

theorem pixel_coordinates_counterexample:
  "(0::int) \<le> 599 \<and> 599 < image_width main_cfg
   \<and> (0::int) \<le> 336 \<and> 336 < image_height main_cfg
   \<and> (0::real) \<le> 1 / 2 \<and> (1::real) / 2 < 1
   \<and> pixel_u main_cfg 599 (1 / 2) = 1199 / 1198 \<and> \<not> pixel_u main_cfg 599 (1 / 2) < 1
   \<and> pixel_v main_cfg 336 (1 / 2) = 673 / 672 \<and> \<not> pixel_v main_cfg 336 (1 / 2) < 1"
  by (simp add: pixel_u_def pixel_v_def image_height_main_cfg image_width_main_cfg)

lemma update_step:
  assumes "0 \<le> thread" and "nat thread < length (linesLeft (singleton st))"
  shows "\<exists>st'. update E thread lineCount st = Inr st'
     \<and> (thread = 0 \<longrightarrow>
          estimatedTime (singleton st')
            = (fst (clock_now E (gen st)) - started (timer (singleton st)))
              * real_of_int lineCount
        \<and> started (timer (singleton st')) = fst (clock_now E (snd (clock_now E (gen st))))
        \<and> gen st' = snd (clock_now E (snd (clock_now E (gen st)))))
     \<and> (thread \<noteq> 0 \<longrightarrow>
          estimatedTime (singleton st') = estimatedTime (singleton st)
        \<and> timer (singleton st') = timer (singleton st) \<and> gen st' = gen st)
     \<and> linesLeft (singleton st') = (linesLeft (singleton st))[nat thread := lineCount]
     \<and> cerr st' = cerr st @ [(linesLeft (singleton st'), estimatedTime (singleton st') / 60)]
     \<and> calls st' = calls st"
  using assms
  by (auto simp add: update_def getElapsedS_def Timer_reset_def Let_def split_beta)

lemma update_in_range:
  assumes "update E thread lineCount st = Inr st'"
  shows "0 \<le> thread \<and> nat thread < length (linesLeft (singleton st))"
  using assms
  by (cases "thread = 0")
    (auto simp: update_def getElapsedS_def Timer_reset_def Let_def split_beta
      split: if_splits)

lemma update_progress_ok:
  assumes mono: "\<And>g. fst (clock_now E g) \<le> fst (clock_now E (snd (clock_now E g)))"
    and ok: "progress_ok E st" and n: "0 \<le> lineCount"
    and up: "update E thread lineCount st = Inr st'"
  shows "progress_ok E st'"
proof -
  from update_in_range [OF up]
  have rng: "0 \<le> thread" "nat thread < length (linesLeft (singleton st))" by simp_all
  from update_step [OF rng, of E lineCount] up
  have zero: "thread = 0 \<Longrightarrow> estimatedTime (singleton st')
            = (fst (clock_now E (gen st)) - started (timer (singleton st)))
              * real_of_int lineCount
        \<and> started (timer (singleton st')) = fst (clock_now E (snd (clock_now E (gen st))))
        \<and> gen st' = snd (clock_now E (snd (clock_now E (gen st))))"
    and other: "thread \<noteq> 0 \<Longrightarrow> estimatedTime (singleton st') = estimatedTime (singleton st)
        \<and> timer (singleton st') = timer (singleton st) \<and> gen st' = gen st"
    and ce: "cerr st' = cerr st @ [(linesLeft (singleton st'), estimatedTime (singleton st') / 60)]"
    by auto
  show ?thesis
  proof (cases "thread = 0")
    case True
    from ok have "0 \<le> fst (clock_now E (gen st)) - started (timer (singleton st))"
      by (simp add: progress_ok_def)
    with n zero [OF True] have e0: "0 \<le> estimatedTime (singleton st')" by simp
    from mono [of "snd (clock_now E (gen st))"] zero [OF True]
    have "started (timer (singleton st')) \<le> fst (clock_now E (gen st'))" by simp
    with e0 ok show ?thesis by (simp add: progress_ok_def ce)
  next
    case False
    with other ok show ?thesis by (simp add: progress_ok_def ce)
  qed
qed

lemma updates_progress_ok:
  assumes mono: "\<And>g. fst (clock_now E g) \<le> fst (clock_now E (snd (clock_now E g)))"
  shows "progress_ok E st \<Longrightarrow> list_all (\<lambda>c. 0 \<le> snd c) cs \<Longrightarrow> updates E cs st = Inr st'
    \<Longrightarrow> progress_ok E st'"
proof (induction cs arbitrary: st)
  case Nil
  then show ?case by simp
next
  case (Cons c cs)
  obtain thread lineCount where c: "c = (thread, lineCount)" by (cases c)
  from Cons.prems(3) obtain st1 where s1: "update E thread lineCount st = Inr st1"
    and rest: "updates E cs st1 = Inr st'"
    by (auto simp: c split: sum.splits)
  from Cons.prems(2) have "0 \<le> lineCount" by (simp add: c)
  from update_progress_ok [OF mono Cons.prems(1) this s1] have "progress_ok E st1" .
  from Cons.IH [OF this _ rest] Cons.prems(2) show ?case by simp
qed

lemma main_process_ok:
  assumes mono: "\<And>g. fst (clock_now E g) \<le> fst (clock_now E (snd (clock_now E g)))"
  shows "progress_ok E (main_process E cfg g)"
  using mono [of g]
  by (simp add: progress_ok_def main_process_def init_def fresh_process_def Timer_reset_def
      split_beta)

text \<open>C8: a call \<^verbatim>\<open>update(thread, lineCount)\<close> with a thread index inside the vector of
  counters returns, and it recomputes the estimate if and only if \<open>thread = 0\<close>: for the
  thread 0 the stored estimate becomes the time elapsed since the timer was last reset
  (by \<^verbatim>\<open>init\<close> or by the previous update of the thread 0) times \<open>lineCount\<close>, and the
  timer is reset; for any other thread the estimate, the timer and the clock are left as
  they were. In both cases the counter of the thread is set and one status line with the
  estimate in minutes is written. When the elapsed time and \<open>lineCount\<close> are not
  negative, neither is the new estimate; and when the clock never runs backwards, then
  after \<^verbatim>\<open>init\<close> and any sequence of updates with counts that are not negative, the
  stored estimate and every estimate written are not negative.\<close>

theorem update_eta:
  "(0 \<le> thread \<and> nat thread < length (linesLeft (singleton st)) \<longrightarrow>
      (\<exists>st'. update E thread lineCount st = Inr st'
         \<and> (thread = 0 \<longrightarrow>
              estimatedTime (singleton st')
                = (fst (clock_now E (gen st)) - started (timer (singleton st)))
                  * real_of_int lineCount
            \<and> started (timer (singleton st'))
                = fst (clock_now E (snd (clock_now E (gen st)))))
         \<and> (thread \<noteq> 0 \<longrightarrow>
              estimatedTime (singleton st') = estimatedTime (singleton st)
            \<and> timer (singleton st') = timer (singleton st) \<and> gen st' = gen st)
         \<and> linesLeft (singleton st') = (linesLeft (singleton st))[nat thread := lineCount]
         \<and> cerr st'
             = cerr st @ [(linesLeft (singleton st'), estimatedTime (singleton st') / 60)]
         \<and> (0 \<le> estimatedTime (singleton st) \<and> 0 \<le> lineCount
              \<and> started (timer (singleton st)) \<le> fst (clock_now E (gen st))
            \<longrightarrow> 0 \<le> estimatedTime (singleton st'))))
   \<and> ((\<forall>g'. fst (clock_now E g') \<le> fst (clock_now E (snd (clock_now E g'))))
        \<and> list_all (\<lambda>c. 0 \<le> snd c) cs
        \<and> updates E cs (main_process E cfg g) = Inr stn
      \<longrightarrow> 0 \<le> estimatedTime (singleton stn) \<and> list_all (\<lambda>l. 0 \<le> snd l) (cerr stn))"
proof (intro conjI impI)
  assume rng: "0 \<le> thread \<and> nat thread < length (linesLeft (singleton st))"
  then have r1: "0 \<le> thread" and r2: "nat thread < length (linesLeft (singleton st))"
    by simp_all
  from update_step [OF r1 r2, of E lineCount] obtain st' where
    up: "update E thread lineCount st = Inr st'"
    and zero: "thread = 0 \<longrightarrow>
          estimatedTime (singleton st')
            = (fst (clock_now E (gen st)) - started (timer (singleton st)))
              * real_of_int lineCount
        \<and> started (timer (singleton st')) = fst (clock_now E (snd (clock_now E (gen st))))
        \<and> gen st' = snd (clock_now E (snd (clock_now E (gen st))))"
    and other: "thread \<noteq> 0 \<longrightarrow>
          estimatedTime (singleton st') = estimatedTime (singleton st)
        \<and> timer (singleton st') = timer (singleton st) \<and> gen st' = gen st"
    and ll: "linesLeft (singleton st') = (linesLeft (singleton st))[nat thread := lineCount]"
    and ce: "cerr st' = cerr st @ [(linesLeft (singleton st'), estimatedTime (singleton st') / 60)]"
    by blast
  have nonneg: "0 \<le> estimatedTime (singleton st)
      \<and> 0 \<le> lineCount \<and> started (timer (singleton st)) \<le> fst (clock_now E (gen st))
    \<longrightarrow> 0 \<le> estimatedTime (singleton st')"
  proof (cases "thread = 0")
    case True
    with zero show ?thesis by simp
  next
    case False
    with other show ?thesis by simp
  qed
  from up zero other ll ce nonneg
  show "\<exists>st'. update E thread lineCount st = Inr st'
         \<and> (thread = 0 \<longrightarrow>
              estimatedTime (singleton st')
                = (fst (clock_now E (gen st)) - started (timer (singleton st)))
                  * real_of_int lineCount
            \<and> started (timer (singleton st'))
                = fst (clock_now E (snd (clock_now E (gen st)))))
         \<and> (thread \<noteq> 0 \<longrightarrow>
              estimatedTime (singleton st') = estimatedTime (singleton st)
            \<and> timer (singleton st') = timer (singleton st) \<and> gen st' = gen st)
         \<and> linesLeft (singleton st') = (linesLeft (singleton st))[nat thread := lineCount]
         \<and> cerr st'
             = cerr st @ [(linesLeft (singleton st'), estimatedTime (singleton st') / 60)]
         \<and> (0 \<le> estimatedTime (singleton st) \<and> 0 \<le> lineCount
              \<and> started (timer (singleton st)) \<le> fst (clock_now E (gen st))
            \<longrightarrow> 0 \<le> estimatedTime (singleton st'))"
    by (intro exI [of _ st']) simp
next
  assume run: "(\<forall>g'. fst (clock_now E g') \<le> fst (clock_now E (snd (clock_now E g'))))
        \<and> list_all (\<lambda>c. 0 \<le> snd c) cs
        \<and> updates E cs (main_process E cfg g) = Inr stn"
  then have mono: "\<And>g'. fst (clock_now E g') \<le> fst (clock_now E (snd (clock_now E g')))"
    by blast
  have start: "progress_ok E (main_process E cfg g)"
    by (rule main_process_ok [OF mono])
  from run have nn: "list_all (\<lambda>c. 0 \<le> snd c) cs"
    and fin: "updates E cs (main_process E cfg g) = Inr stn"
    by simp_all
  have ok: "progress_ok E stn"
    by (rule updates_progress_ok [OF mono start nn fin])
  then show "0 \<le> estimatedTime (singleton stn)"
    by (simp add: progress_ok_def)
  from ok show "list_all (\<lambda>l. 0 \<le> snd l) (cerr stn)"
    by (simp add: progress_ok_def)
qed

text \<open>Two workers, the clock reads 0, 1, 2, ... seconds: \<^verbatim>\<open>init\<close> takes the reading 0;
  an update of the thread 0 with 5 lines left one second later stores 5 seconds and
  resets the timer at the reading 2, while an update of the thread 1 leaves estimate,
  timer and clock alone.\<close>

theorem update_eta_witness:
  "update floor_externals 0 5 (main_process floor_externals small_cfg 0) =
     Inr \<lparr>singleton = \<lparr>linesLeft = [5, 0], timer = \<lparr>started = 2\<rparr>, estimatedTime = 5\<rparr>,
          gen = 3, cerr = [([5, 0], 1 / 12)], calls = []\<rparr>
   \<and> update floor_externals 1 7 (main_process floor_externals small_cfg 0) =
     Inr \<lparr>singleton = \<lparr>linesLeft = [0, 7], timer = \<lparr>started = 0\<rparr>, estimatedTime = 0\<rparr>,
          gen = 1, cerr = [([0, 7], 0)], calls = []\<rparr>
   \<and> 0 \<le> estimatedTime (singleton \<lparr>singleton =
         \<lparr>linesLeft = [5, 0], timer = \<lparr>started = 2\<rparr>, estimatedTime = 5\<rparr>,
          gen = 3::nat, cerr = [([5, 0], 1 / 12)], calls = []\<rparr>)"
proof -
  have a: "update floor_externals 0 5 (main_process floor_externals small_cfg 0) =
     Inr \<lparr>singleton = \<lparr>linesLeft = [5, 0], timer = \<lparr>started = 2\<rparr>, estimatedTime = 5\<rparr>,
          gen = 3, cerr = [([5, 0], 1 / 12)], calls = []\<rparr>"
    by (simp add: update_def main_process_def init_def fresh_process_def Timer_reset_def
        getElapsedS_def floor_externals_def small_cfg_def Let_def numeral_2_eq_2)
  have b: "update floor_externals 1 7 (main_process floor_externals small_cfg 0) =
     Inr \<lparr>singleton = \<lparr>linesLeft = [0, 7], timer = \<lparr>started = 0\<rparr>, estimatedTime = 0\<rparr>,
          gen = 1, cerr = [([0, 7], 0)], calls = []\<rparr>"
    by (simp add: update_def main_process_def init_def fresh_process_def Timer_reset_def
        getElapsedS_def floor_externals_def small_cfg_def Let_def numeral_2_eq_2)
  have mono: "\<forall>g'. fst (clock_now floor_externals g')
      \<le> fst (clock_now floor_externals (snd (clock_now floor_externals g')))"
    by (simp add: floor_externals_def)
  have run: "updates floor_externals [(0, 5)] (main_process floor_externals small_cfg 0) =
     Inr \<lparr>singleton = \<lparr>linesLeft = [5, 0], timer = \<lparr>started = 2\<rparr>, estimatedTime = 5\<rparr>,
          gen = 3, cerr = [([5, 0], 1 / 12)], calls = []\<rparr>"
    by (simp add: a)
  from update_eta [where thread = 0 and st = "main_process floor_externals small_cfg 0"
      and E = floor_externals and lineCount = 5 and cs = "[(0, 5)]" and cfg = small_cfg
      and g = 0 and stn =
      "\<lparr>singleton = \<lparr>linesLeft = [5, 0], timer = \<lparr>started = 2\<rparr>, estimatedTime = 5\<rparr>,
          gen = 3, cerr = [([5, 0], 1 / 12)], calls = []\<rparr>"] mono run
  have "0 \<le> estimatedTime (singleton \<lparr>singleton =
         \<lparr>linesLeft = [5, 0], timer = \<lparr>started = 2\<rparr>, estimatedTime = 5\<rparr>,
          gen = 3::nat, cerr = [([5, 0], 1 / 12)], calls = []\<rparr>)"
    by simp
  with a b show ?thesis by blast
qed

lemma scene_step_adds:
  "fst (scene_step E a b acc) = fst acc
   \<or> (\<exists>s. fst (scene_step E a b acc) = fst acc @ [s] \<and> small_sphere s)"
  by (cases acc)
    (simp add: scene_step_def split_beta Let_def add_def small_sphere_def vec_sub_def)

lemma scene_loop_b_adds:
  "\<exists>xs. fst (scene_loop_b E a b acc) = fst acc @ xs
     \<and> length xs \<le> nat (11 - b) \<and> list_all small_sphere xs"
proof (induction E a b acc rule: scene_loop_b.induct)
  case (1 E a b acc)
  show ?case
  proof (cases "b < 11")
    case False
    then show ?thesis by (subst scene_loop_b.simps) simp
  next
    case True
    from "1.IH" [OF True] obtain xs where
      xs: "fst (scene_loop_b E a (b + 1) (scene_step E a b acc))
             = fst (scene_step E a b acc) @ xs"
      and len: "length xs \<le> nat (11 - (b + 1))" and ok: "list_all small_sphere xs"
      by blast
    have unf: "scene_loop_b E a b acc = scene_loop_b E a (b + 1) (scene_step E a b acc)"
      using True by (subst scene_loop_b.simps) simp
    from scene_step_adds [of E a b acc] show ?thesis
    proof
      assume "fst (scene_step E a b acc) = fst acc"
      with xs len ok unf True show ?thesis
        by (intro exI [of _ xs]) simp
    next
      assume "\<exists>s. fst (scene_step E a b acc) = fst acc @ [s] \<and> small_sphere s"
      then obtain s where s: "fst (scene_step E a b acc) = fst acc @ [s]"
        and sok: "small_sphere s" by blast
      from len True have "length (s # xs) \<le> nat (11 - b)" by simp
      with xs ok unf s sok show ?thesis
        by (intro exI [of _ "s # xs"]) simp
    qed
  qed
qed

lemma scene_loop_a_adds:
  "\<exists>xs. fst (scene_loop_a E a acc) = fst acc @ xs
     \<and> length xs \<le> 22 * nat (11 - a) \<and> list_all small_sphere xs"
proof (induction E a acc rule: scene_loop_a.induct)
  case (1 E a acc)
  show ?case
  proof (cases "a < 11")
    case False
    then show ?thesis by (subst scene_loop_a.simps) simp
  next
    case True
    from "1.IH" [OF True] obtain xs where
      xs: "fst (scene_loop_a E (a + 1) (scene_loop_b E a (- 11) acc))
             = fst (scene_loop_b E a (- 11) acc) @ xs"
      and len: "length xs \<le> 22 * nat (11 - (a + 1))" and ok: "list_all small_sphere xs"
      by blast
    from scene_loop_b_adds [of E a "- 11" acc] obtain ys where
      ys: "fst (scene_loop_b E a (- 11) acc) = fst acc @ ys"
      and leny: "length ys \<le> 22" and oky: "list_all small_sphere ys"
      by auto
    have unf: "scene_loop_a E a acc = scene_loop_a E (a + 1) (scene_loop_b E a (- 11) acc)"
      using True by (subst scene_loop_a.simps) simp
    from True have "22 * nat (11 - (a + 1)) + 22 = 22 * nat (11 - a)" by simp
    with len leny have "length (ys @ xs) \<le> 22 * nat (11 - a)" by simp
    with xs ys ok oky unf show ?thesis
      by (intro exI [of _ "ys @ xs"]) simp
  qed
qed

text \<open>C10: whatever the random draws, the scene \<^verbatim>\<open>random_scene\<close> returns starts with the
  ground sphere (center \<open>(0, -1000, 0)\<close>, radius 1000, diffuse albedo \<open>(0.5, 0.5, 0.5)\<close>)
  and ends with the three unit spheres (glass at \<open>(0, 1, 0)\<close>, diffuse at \<open>(-4, 1, 0)\<close>,
  metal with fuzz 0 at \<open>(4, 1, 0)\<close>); every sphere in between is a small one, of radius 0.2
  and with its center more than 0.9 away from \<open>(4, 0.2, 0)\<close>; there are at most
  \<open>22 * 22 = 484\<close> of them, so the scene holds between 4 and 488 objects.\<close>

theorem random_scene_contents:
  "\<exists>smalls. fst (random_scene E g) =
       sphere (vec3 0 (- 1000) 0) 1000 (Lambertian (vec3 0.5 0.5 0.5)) # smalls @
       [sphere (vec3 0 1 0) 1 (Dielectric 1.5),
        sphere (vec3 (- 4) 1 0) 1 (Lambertian (vec3 0.4 0.2 0.1)),
        sphere (vec3 4 1 0) 1 (Metal (vec3 0.7 0.6 0.5) 0)]
     \<and> list_all small_sphere smalls \<and> length smalls \<le> 484
     \<and> 4 \<le> length (fst (random_scene E g)) \<and> length (fst (random_scene E g)) \<le> 488"
proof -
  let ?ground = "sphere (vec3 0 (- 1000) 0) 1000 (Lambertian (vec3 0.5 0.5 0.5))"
  from scene_loop_a_adds [of E "- 11" "([?ground], g)"] obtain xs where
    xs: "fst (scene_loop_a E (- 11) ([?ground], g)) = [?ground] @ xs"
    and len: "length xs \<le> 484" and ok: "list_all small_sphere xs"
    by auto
  have "fst (random_scene E g) = ?ground # xs @
       [sphere (vec3 0 1 0) 1 (Dielectric 1.5),
        sphere (vec3 (- 4) 1 0) 1 (Lambertian (vec3 0.4 0.2 0.1)),
        sphere (vec3 4 1 0) 1 (Metal (vec3 0.7 0.6 0.5) 0)]"
    using xs
    by (simp add: random_scene_def Let_def split_beta add_def lambertian_def metal_def
        dielectric_def)
  with len ok show ?thesis
    by (intro exI [of _ xs]) simp
qed

text \<open>With a generator that always returns one half, the first and the last object of
  the scene are the ground and the metal sphere.\<close>

theorem random_scene_contents_witness:
  "hd (fst (random_scene floor_externals 0))
     = sphere (vec3 0 (- 1000) 0) 1000 (Lambertian (vec3 0.5 0.5 0.5))
   \<and> last (fst (random_scene floor_externals 0))
     = sphere (vec3 4 1 0) 1 (Metal (vec3 0.7 0.6 0.5) 0)
   \<and> 4 \<le> length (fst (random_scene floor_externals 0))
   \<and> length (fst (random_scene floor_externals 0)) \<le> 488"
proof -
  from random_scene_contents [of floor_externals 0] obtain smalls where
    eq: "fst (random_scene floor_externals 0) =
       sphere (vec3 0 (- 1000) 0) 1000 (Lambertian (vec3 0.5 0.5 0.5)) # smalls @
       [sphere (vec3 0 1 0) 1 (Dielectric 1.5),
        sphere (vec3 (- 4) 1 0) 1 (Lambertian (vec3 0.4 0.2 0.1)),
        sphere (vec3 4 1 0) 1 (Metal (vec3 0.7 0.6 0.5) 0)]"
    and len: "length smalls \<le> 484"
    by blast
  from len show ?thesis by (simp add: eq)
qed

lemma rev_upto_head: "(0::int) \<le> j \<Longrightarrow> rev [0..j] = j # rev [0..j - 1]"
  by (simp add: upto_rec2)

lemma sample_step_effect:
  "calls (snd (sample_step E cfg world j i s acc)) = calls (snd acc) @ [Sample j i s]
   \<and> singleton (snd (sample_step E cfg world j i s acc)) = singleton (snd acc)
   \<and> cerr (snd (sample_step E cfg world j i s acc)) = cerr (snd acc)"
  by (simp add: sample_step_def split_beta)

lemma sample_loop_effect:
  "calls (snd (sample_loop E cfg world j i s acc))
     = calls (snd acc) @ map (Sample j i) [s..samples_per_pixel cfg - 1]
   \<and> singleton (snd (sample_loop E cfg world j i s acc)) = singleton (snd acc)
   \<and> cerr (snd (sample_loop E cfg world j i s acc)) = cerr (snd acc)"
proof (induction E cfg world j i s acc rule: sample_loop.induct)
  case (1 E cfg world j i s acc)
  show ?case
  proof (cases "s < samples_per_pixel cfg")
    case False
    then show ?thesis by (subst (1 2 3) sample_loop.simps) simp
  next
    case True
    then have "[s..samples_per_pixel cfg - 1] = s # [s + 1..samples_per_pixel cfg - 1]"
      by (simp add: upto_rec1)
    with "1.IH" [OF True] True sample_step_effect [of E cfg world j i s acc]
    show ?thesis by (subst (1 2 3) sample_loop.simps) simp
  qed
qed

lemma pixel_step_effect:
  "calls (snd (pixel_step E cfg world j i acc)) = calls (snd acc) @ pixel_events cfg j i
   \<and> singleton (snd (pixel_step E cfg world j i acc)) = singleton (snd acc)
   \<and> cerr (snd (pixel_step E cfg world j i acc)) = cerr (snd acc)
   \<and> (\<exists>px. pixels (fst (pixel_step E cfg world j i acc)) = pixels (fst acc) @ [px])"
  using sample_loop_effect [of E cfg world j i 0 "(vec3 0 0 0, snd acc)"]
  by (cases acc) (simp add: pixel_step_def split_beta Let_def pixel_events_def pushPixel_def)

lemma pixel_loop_effect:
  "calls (snd (pixel_loop E cfg world j i acc))
     = calls (snd acc) @ concat (map (pixel_events cfg j) [i..image_width cfg - 1])
   \<and> singleton (snd (pixel_loop E cfg world j i acc)) = singleton (snd acc)
   \<and> cerr (snd (pixel_loop E cfg world j i acc)) = cerr (snd acc)
   \<and> (\<exists>new. pixels (fst (pixel_loop E cfg world j i acc)) = pixels (fst acc) @ new
        \<and> length new = nat (image_width cfg - i))"
proof (induction E cfg world j i acc rule: pixel_loop.induct)
  case (1 E cfg world j i acc)
  show ?case
  proof (cases "i < image_width cfg")
    case False
    then show ?thesis by (subst (1 2 3 4) pixel_loop.simps) simp
  next
    case True
    then have up: "[i..image_width cfg - 1] = i # [i + 1..image_width cfg - 1]"
      by (simp add: upto_rec1)
    from pixel_step_effect [of E cfg world j i acc] obtain px where
      c1: "calls (snd (pixel_step E cfg world j i acc)) = calls (snd acc) @ pixel_events cfg j i"
      and s1: "singleton (snd (pixel_step E cfg world j i acc)) = singleton (snd acc)"
      and e1: "cerr (snd (pixel_step E cfg world j i acc)) = cerr (snd acc)"
      and p1: "pixels (fst (pixel_step E cfg world j i acc)) = pixels (fst acc) @ [px]"
      by blast
    from "1.IH" [OF True] obtain new where
      c2: "calls (snd (pixel_loop E cfg world j (i + 1) (pixel_step E cfg world j i acc)))
        = calls (snd (pixel_step E cfg world j i acc))
          @ concat (map (pixel_events cfg j) [i + 1..image_width cfg - 1])"
      and s2: "singleton (snd (pixel_loop E cfg world j (i + 1) (pixel_step E cfg world j i acc)))
        = singleton (snd (pixel_step E cfg world j i acc))"
      and e2: "cerr (snd (pixel_loop E cfg world j (i + 1) (pixel_step E cfg world j i acc)))
        = cerr (snd (pixel_step E cfg world j i acc))"
      and p2: "pixels (fst (pixel_loop E cfg world j (i + 1) (pixel_step E cfg world j i acc)))
        = pixels (fst (pixel_step E cfg world j i acc)) @ new"
      and l2: "length new = nat (image_width cfg - (i + 1))"
      by blast
    have unf: "pixel_loop E cfg world j i acc
        = pixel_loop E cfg world j (i + 1) (pixel_step E cfg world j i acc)"
      using True by (subst pixel_loop.simps) simp
    from True l2 have l3: "length (px # new) = nat (image_width cfg - i)" by simp
    have "\<exists>new. pixels (fst (pixel_loop E cfg world j i acc)) = pixels (fst acc) @ new
        \<and> length new = nat (image_width cfg - i)"
      using p1 p2 l3 unfolding unf by (intro exI [of _ "px # new"]) simp
    with c1 c2 s1 s2 e1 e2 up show ?thesis
      unfolding unf by simp
  qed
qed

lemma row_loop_effect:
  assumes "threadIndex < length (linesLeft (singleton (snd acc)))"
  shows "\<exists>img' st'. row_loop E cfg world threadIndex j acc = Inr (img', st')
     \<and> calls st' = calls (snd acc)
         @ concat (map (row_events cfg (int threadIndex)) (rev [0..j]))
     \<and> (\<exists>new. pixels img' = pixels (fst acc) @ new
          \<and> length new = nat (j + 1) * nat (image_width cfg))"
  using assms
proof (induction E cfg world threadIndex j acc rule: row_loop.induct)
  case (1 E cfg world threadIndex j acc)
  show ?case
  proof (cases "j \<ge> 0")
    case False
    then show ?thesis by (subst row_loop.simps) (cases acc, simp)
  next
    case True
    obtain img st where acc: "acc = (img, st)" by (cases acc)
    let ?st0 = "st\<lparr>calls := calls st @ [Update (int threadIndex) j]\<rparr>"
    from "1.prems" have rng: "0 \<le> int threadIndex"
      "nat (int threadIndex) < length (linesLeft (singleton ?st0))"
      by (simp_all add: acc)
    from update_step [OF rng, of E j] obtain st1 where
      up: "update E (int threadIndex) j ?st0 = Inr st1"
      and ll: "linesLeft (singleton st1) = (linesLeft (singleton ?st0))[nat (int threadIndex) := j]"
      and c1: "calls st1 = calls ?st0"
      by blast
    let ?acc1 = "pixel_loop E cfg world j 0 (img, st1)"
    from pixel_loop_effect [of E cfg world j 0 "(img, st1)"] obtain new1 where
      c2: "calls (snd ?acc1) = calls st1 @ concat (map (pixel_events cfg j) [0..image_width cfg - 1])"
      and s2: "singleton (snd ?acc1) = singleton st1"
      and p2: "pixels (fst ?acc1) = pixels img @ new1"
      and l2: "length new1 = nat (image_width cfg)"
      by auto
    from "1.prems" ll s2 have "threadIndex < length (linesLeft (singleton (snd ?acc1)))"
      by (simp add: acc)
    from "1.IH" [OF True acc [symmetric] up this] obtain img' st' new2 where
      r: "row_loop E cfg world threadIndex (j - 1) ?acc1 = Inr (img', st')"
      and c3: "calls st' = calls (snd ?acc1)
         @ concat (map (row_events cfg (int threadIndex)) (rev [0..j - 1]))"
      and p3: "pixels img' = pixels (fst ?acc1) @ new2"
      and l3: "length new2 = nat (j - 1 + 1) * nat (image_width cfg)"
      by blast
    have unf: "row_loop E cfg world threadIndex j acc = Inr (img', st')"
      using True up r by (subst row_loop.simps) (simp add: acc)
    from True have "nat (j + 1) = Suc (nat j)" by simp
    with l2 l3 have l4: "length (new1 @ new2) = nat (j + 1) * nat (image_width cfg)"
      by simp
    have c4: "calls st' = calls (snd acc)
         @ concat (map (row_events cfg (int threadIndex)) (rev [0..j]))"
      using c1 c2 c3 True by (simp add: acc rev_upto_head row_events_def)
    have "\<exists>new. pixels img' = pixels (fst acc) @ new
          \<and> length new = nat (j + 1) * nat (image_width cfg)"
      using p2 p3 l4 by (intro exI [of _ "new1 @ new2"]) (simp add: acc)
    with unf c4 show ?thesis by blast
  qed
qed

lemma renderImage_effect:
  assumes "threadIndex < length (linesLeft (singleton st))"
  shows "\<exists>img' st' new. renderImage E cfg world threadIndex img st = Inr (img', st')
     \<and> calls st' = calls st @ render_events cfg (int threadIndex)
     \<and> pixels img' = pixels img @ new
     \<and> length new = nat (image_height cfg) * nat (image_width cfg)"
  using row_loop_effect [of threadIndex "(img, st)" E cfg world "image_height cfg - 1"] assms
  by (auto simp: renderImage_def render_events_def)












lemma samples_of_append: "samples_of j i (xs @ ys) = samples_of j i xs + samples_of j i ys"
  by (induction j i xs rule: samples_of.induct) simp_all

lemma samples_of_samples:
  "samples_of j i (map (Sample j' i') ss) = (if j' = j \<and> i' = i then length ss else 0)"
  by (induction ss) auto

lemma samples_of_pixel_events:
  "samples_of j i (pixel_events cfg j' i')
     = (if j' = j \<and> i' = i then nat (samples_per_pixel cfg) else 0)"
  by (simp add: pixel_events_def samples_of_append samples_of_samples)

lemma samples_of_pixels:
  "distinct cols \<Longrightarrow> samples_of j i (concat (map (pixel_events cfg j') cols))
     = (if j' = j \<and> i \<in> set cols then nat (samples_per_pixel cfg) else 0)"
  by (induction cols) (auto simp: samples_of_append samples_of_pixel_events)

lemma samples_of_row_events:
  "samples_of j i (row_events cfg t j')
     = (if j' = j \<and> 0 \<le> i \<and> i < image_width cfg then nat (samples_per_pixel cfg) else 0)"
  by (auto simp add: row_events_def samples_of_pixels)

lemma samples_of_rows:
  "distinct rows \<Longrightarrow> samples_of j i (concat (map (row_events cfg t) rows))
     = (if j \<in> set rows \<and> 0 \<le> i \<and> i < image_width cfg
        then nat (samples_per_pixel cfg) else 0)"
  by (induction rows) (auto simp: samples_of_append samples_of_row_events)

lemma samples_of_render_events:
  "samples_of j i (render_events cfg t)
     = (if 0 \<le> j \<and> j < image_height cfg \<and> 0 \<le> i \<and> i < image_width cfg
        then nat (samples_per_pixel cfg) else 0)"
  by (auto simp add: render_events_def samples_of_rows)

lemma sdiv_nonneg: "0 \<le> a \<Longrightarrow> 0 < b \<Longrightarrow> a sdiv b = a div (b::int)"
  by (simp add: signed_divide_int_def sgn_if)

lemma image_height_small_cfg: "image_height small_cfg = 2"
  by (simp add: image_height_def small_cfg_def static_cast_int_def)

lemma samples_per_pixel_small_cfg: "samples_per_pixel small_cfg = 2"
  by (simp add: samples_per_pixel_def small_cfg_def signed_divide_int_def)

lemma image_width_small_cfg: "image_width small_cfg = 3"
  by (simp add: small_cfg_def)

lemma upto_0_1: "[0..1::int] = [0, 1]"
  by (simp add: upto.simps)

lemma upto_0_2: "[0..2::int] = [0, 1, 2]"
  by (simp add: upto.simps)

lemma render_events_small_cfg:
  "render_events small_cfg 0 =
     [Update 0 1, Sample 1 0 0, Sample 1 0 1, Push 1 0, Sample 1 1 0, Sample 1 1 1, Push 1 1,
      Sample 1 2 0, Sample 1 2 1, Push 1 2,
      Update 0 0, Sample 0 0 0, Sample 0 0 1, Push 0 0, Sample 0 1 0, Sample 0 1 1, Push 0 1,
      Sample 0 2 0, Sample 0 2 1, Push 0 2]"
  by (simp add: render_events_def row_events_def pixel_events_def image_height_small_cfg
      samples_per_pixel_small_cfg image_width_small_cfg upto_0_1 upto_0_2)


lemma main_process_linesLeft:
  "length (linesLeft (singleton (main_process E cfg g))) = nat (threadCount cfg)"
  by (simp add: main_process_def init_def fresh_process_def Timer_reset_def split_beta)

lemma main_process_calls: "calls (main_process E cfg g) = []"
  by (simp add: main_process_def init_def fresh_process_def Timer_reset_def split_beta)

lemma threadCount_main_cfg: "threadCount main_cfg = 16"
  by (simp add: main_cfg_def)

lemma threadCount_small_cfg: "threadCount small_cfg = 2"
  by (simp add: small_cfg_def)

lemma render_calls_eq:
  assumes "threadIndex < length (linesLeft (singleton st))"
  shows "render_calls E cfg world threadIndex img st = render_events cfg (int threadIndex)"
  using renderImage_effect [OF assms, of E cfg world img]
  by (auto simp: render_calls_def)

lemma render_events_main_cfg_head:
  "\<exists>rest. render_events main_cfg 0 = Update 0 336 # Sample 336 0 0 # Push 336 0 # rest"
proof -
  have r: "rev [0..336::int] = 336 # rev [0..335]"
    using rev_upto_head [of 336] by simp
  have c: "[0..599::int] = 0 # [1..599]"
    using upto_rec1 [of 0 599] by simp
  have s: "[0..0::int] = [0]" by (simp add: upto.simps)
  show ?thesis
    by (simp add: render_events_def row_events_def pixel_events_def image_height_main_cfg
      image_width_main_cfg samples_per_pixel_main_cfg r c s)
qed

lemma render_events_main_cfg_last:
  "last (render_events main_cfg 0) = Push 0 599"
proof -
  have r: "rev [0..336::int] = rev [1..336] @ [0]"
    using upto_rec1 [of 0 336] by simp
  have c: "[0..599::int] = [0..598] @ [599]"
    using upto_rec2 [of 0 599] by simp
  show ?thesis
    by (simp add: render_events_def row_events_def pixel_events_def image_height_main_cfg
      image_width_main_cfg samples_per_pixel_main_cfg r c)
qed

lemma sample_step_value:
  "sample_step E cfg world j i s (c, st) =
     (vec_add c (fst (sample_color E cfg world j i (gen st))),
      st\<lparr>gen := snd (sample_color E cfg world j i (gen st)),
         calls := calls st @ [Sample j i s]\<rparr>)"
  by (simp add: sample_step_def sample_color_def split_beta)

lemma sample_loop_value:
  "fst (sample_loop E cfg world j i s acc)
     = foldl vec_add (fst acc)
         (fst (sample_colors E cfg world j i (nat (samples_per_pixel cfg - s)) (gen (snd acc))))
   \<and> gen (snd (sample_loop E cfg world j i s acc))
     = snd (sample_colors E cfg world j i (nat (samples_per_pixel cfg - s)) (gen (snd acc)))"
proof (induction E cfg world j i s acc rule: sample_loop.induct)
  case (1 E cfg world j i s acc)
  show ?case
  proof (cases "s < samples_per_pixel cfg")
    case False
    then show ?thesis by (subst (1 2) sample_loop.simps) simp
  next
    case True
    obtain c st where acc: "acc = (c, st)" by (cases acc)
    from True have n: "nat (samples_per_pixel cfg - s) = Suc (nat (samples_per_pixel cfg - (s + 1)))"
      by simp
    have unf: "sample_loop E cfg world j i s acc
        = sample_loop E cfg world j i (s + 1) (sample_step E cfg world j i s acc)"
      using True by (subst sample_loop.simps) simp
    from "1.IH" [OF True] show ?thesis
      unfolding unf n by (simp add: acc sample_step_value split_beta)
  qed
qed

lemma length_sample_colors:
  "length (fst (sample_colors E cfg world j i n g)) = n"
  by (induction n arbitrary: g) (simp_all add: split_beta)

lemma pixel_step_value:
  "pixels (fst (pixel_step E cfg world j i acc))
     = pixels (fst acc) @ [fst (pixel_value E cfg world j i (gen (snd acc)))]
   \<and> gen (snd (pixel_step E cfg world j i acc))
     = snd (pixel_value E cfg world j i (gen (snd acc)))"
  using sample_loop_value [of E cfg world j i 0 "(vec3 0 0 0, snd acc)"]
  by (cases acc) (simp add: pixel_step_def pixel_value_def split_beta Let_def pushPixel_def)


lemma pixel_loop_value:
  "pixels (fst (pixel_loop E cfg world j i acc))
     = pixels (fst acc)
       @ map snd (fst (row_pixels E cfg world j [i..image_width cfg - 1] (gen (snd acc))))
   \<and> gen (snd (pixel_loop E cfg world j i acc))
     = snd (row_pixels E cfg world j [i..image_width cfg - 1] (gen (snd acc)))"
proof (induction E cfg world j i acc rule: pixel_loop.induct)
  case (1 E cfg world j i acc)
  show ?case
  proof (cases "i < image_width cfg")
    case False
    then show ?thesis by (subst (1 2) pixel_loop.simps) simp
  next
    case True
    then have up: "[i..image_width cfg - 1] = i # [i + 1..image_width cfg - 1]"
      by (simp add: upto_rec1)
    have unf: "pixel_loop E cfg world j i acc
        = pixel_loop E cfg world j (i + 1) (pixel_step E cfg world j i acc)"
      using True by (subst pixel_loop.simps) simp
    from "1.IH" [OF True] pixel_step_value [of E cfg world j i acc] show ?thesis
      unfolding unf up by (simp add: split_beta)
  qed
qed

lemma update_gen_eq:
  assumes "update E thread lineCount st = Inr st'"
  shows "gen st' = update_gen E thread (gen st)"
proof -
  from update_in_range [OF assms]
  have rng: "0 \<le> thread" "nat thread < length (linesLeft (singleton st))" by simp_all
  from update_step [OF rng, of E lineCount] assms show ?thesis
    by (auto simp: update_gen_def)
qed

lemma row_loop_value:
  assumes "threadIndex < length (linesLeft (singleton (snd acc)))"
  shows "\<exists>img' st'. row_loop E cfg world threadIndex j acc = Inr (img', st')
     \<and> pixels img' = pixels (fst acc)
         @ map snd (image_pixels E cfg world (int threadIndex) (rev [0..j]) (gen (snd acc)))"
  using assms
proof (induction E cfg world threadIndex j acc rule: row_loop.induct)
  case (1 E cfg world threadIndex j acc)
  show ?case
  proof (cases "j \<ge> 0")
    case False
    then show ?thesis by (subst row_loop.simps) (cases acc, simp)
  next
    case True
    obtain img st where acc: "acc = (img, st)" by (cases acc)
    let ?st0 = "st\<lparr>calls := calls st @ [Update (int threadIndex) j]\<rparr>"
    from "1.prems" have rng: "0 \<le> int threadIndex"
      "nat (int threadIndex) < length (linesLeft (singleton ?st0))"
      by (simp_all add: acc)
    from update_step [OF rng, of E j] obtain st1 where
      up: "update E (int threadIndex) j ?st0 = Inr st1"
      and ll: "linesLeft (singleton st1) = (linesLeft (singleton ?st0))[nat (int threadIndex) := j]"
      by blast
    from update_gen_eq [OF up] have g1: "gen st1 = update_gen E (int threadIndex) (gen st)"
      by simp
    let ?acc1 = "pixel_loop E cfg world j 0 (img, st1)"
    from pixel_loop_effect [of E cfg world j 0 "(img, st1)"]
    have s2: "singleton (snd ?acc1) = singleton st1" by simp
    from pixel_loop_value [of E cfg world j 0 "(img, st1)"]
    have p2: "pixels (fst ?acc1) = pixels img
         @ map snd (fst (row_pixels E cfg world j [0..image_width cfg - 1] (gen st1)))"
      and g2: "gen (snd ?acc1) = snd (row_pixels E cfg world j [0..image_width cfg - 1] (gen st1))"
      by simp_all
    from "1.prems" ll s2 have "threadIndex < length (linesLeft (singleton (snd ?acc1)))"
      by (simp add: acc)
    from "1.IH" [OF True acc [symmetric] up this] obtain img' st' where
      r: "row_loop E cfg world threadIndex (j - 1) ?acc1 = Inr (img', st')"
      and p3: "pixels img' = pixels (fst ?acc1)
         @ map snd (image_pixels E cfg world (int threadIndex) (rev [0..j - 1]) (gen (snd ?acc1)))"
      by blast
    have unf: "row_loop E cfg world threadIndex j acc = Inr (img', st')"
      using True up r by (subst row_loop.simps) (simp add: acc)
    have "pixels img' = pixels (fst acc)
         @ map snd (image_pixels E cfg world (int threadIndex) (rev [0..j]) (gen (snd acc)))"
      using p2 p3 g1 g2 True by (simp add: acc rev_upto_head split_beta)
    with unf show ?thesis by blast
  qed
qed


lemma renderImage_value:
  assumes "threadIndex < length (linesLeft (singleton st))"
  shows "\<exists>img' st'. renderImage E cfg world threadIndex img st = Inr (img', st')
     \<and> calls st' = calls st @ render_events cfg (int threadIndex)
     \<and> pixels img' = pixels img
         @ map snd (image_pixels E cfg world (int threadIndex)
                      (rev [0..image_height cfg - 1]) (gen st))"
proof -
  from renderImage_effect [OF assms, of E cfg world img] obtain img' st' where
    run: "renderImage E cfg world threadIndex img st = Inr (img', st')"
    and ev: "calls st' = calls st @ render_events cfg (int threadIndex)"
    by blast
  from row_loop_value [of threadIndex "(img, st)" E cfg world "image_height cfg - 1"] assms
  obtain img2 st2 where
    run2: "renderImage E cfg world threadIndex img st = Inr (img2, st2)"
    and px: "pixels img2 = pixels img
         @ map snd (image_pixels E cfg world (int threadIndex)
                      (rev [0..image_height cfg - 1]) (gen st))"
    by (auto simp: renderImage_def)
  from run run2 have "img2 = img'" by simp
  with run ev px show ?thesis by blast
qed


text \<open>C7, as amended: in every run of \<^verbatim>\<open>renderImage\<close> the call \<^verbatim>\<open>update(threadIndex, j)\<close>
  is made at the start of the row \<open>j\<close>: after every pixel of the rows rendered before it
  (those of a larger index) has been pushed, and before the first sample of the row \<open>j\<close>
  is taken. The calls of a run are, row by row from \<open>image_height - 1\<close> down to 0, the
  update for the row followed by the samples and the push of each of its pixels; nothing
  is reported after the last row.\<close>

theorem update_precedes_row:
  assumes "threadIndex < length (linesLeft (singleton st))"
  shows "\<exists>img' st'. renderImage E cfg world threadIndex img st = Inr (img', st')
     \<and> drop (length (calls st)) (calls st') = render_events cfg (int threadIndex)
     \<and> render_events cfg (int threadIndex) =
         concat (map (\<lambda>j. Update (int threadIndex) j #
                   concat (map (\<lambda>i. map (Sample j i) [0..samples_per_pixel cfg - 1]
                                     @ [Push j i])
                            [0..image_width cfg - 1]))
                 (rev [0..image_height cfg - 1]))"
proof -
  from renderImage_effect [OF assms, of E cfg world img] obtain img' st' where
    run: "renderImage E cfg world threadIndex img st = Inr (img', st')"
    and ev: "calls st' = calls st @ render_events cfg (int threadIndex)"
    by blast
  have shape: "render_events cfg (int threadIndex) =
         concat (map (\<lambda>j. Update (int threadIndex) j #
                   concat (map (\<lambda>i. map (Sample j i) [0..samples_per_pixel cfg - 1]
                                     @ [Push j i])
                            [0..image_width cfg - 1]))
                 (rev [0..image_height cfg - 1]))"
    by (simp add: render_events_def row_events_def [abs_def] pixel_events_def [abs_def])
  from ev have "drop (length (calls st)) (calls st') = render_events cfg (int threadIndex)"
    by simp
  with run shape show ?thesis by blast
qed

text \<open>A 3 by 2 image with 2 samples per pixel: each row starts with its update.\<close>

theorem update_precedes_row_witness:
  "render_calls floor_externals small_cfg [] 0 (new_image small_cfg)
       (main_process floor_externals small_cfg 0) =
     [Update 0 1, Sample 1 0 0, Sample 1 0 1, Push 1 0, Sample 1 1 0, Sample 1 1 1, Push 1 1,
      Sample 1 2 0, Sample 1 2 1, Push 1 2,
      Update 0 0, Sample 0 0 0, Sample 0 0 1, Push 0 0, Sample 0 1 0, Sample 0 1 1, Push 0 1,
      Sample 0 2 0, Sample 0 2 1, Push 0 2]"
proof -
  have r: "(0::nat) < length (linesLeft (singleton (main_process floor_externals small_cfg 0)))"
    by (simp add: main_process_linesLeft threadCount_small_cfg)
  from update_precedes_row [OF r, of floor_externals small_cfg "[]" "new_image small_cfg"]
  show ?thesis
    by (auto simp: render_calls_def render_events_small_cfg)
qed

text \<open>C7 as stated fails in the run of the source's own setting: the first call of the
  worker 0 is \<^verbatim>\<open>update(0, 336)\<close>, made before the first sample of the row 336 is taken,
  and the last event of the run is the push of the last pixel of the row 0, with no
  report after it.\<close>

theorem update_precedes_row_counterexample:
  "take 3 (render_calls empty_externals main_cfg [] 0 (new_image main_cfg)
        (main_process empty_externals main_cfg 0))
     = [Update 0 336, Sample 336 0 0, Push 336 0]
   \<and> \<not> reports_follow_rows (render_calls empty_externals main_cfg [] 0 (new_image main_cfg)
        (main_process empty_externals main_cfg 0))
   \<and> last (render_calls empty_externals main_cfg [] 0 (new_image main_cfg)
        (main_process empty_externals main_cfg 0)) = Push 0 599"
proof -
  have "(0::nat) < length (linesLeft (singleton (main_process empty_externals main_cfg 0)))"
    by (simp add: main_process_linesLeft threadCount_main_cfg)
  from render_calls_eq [OF this, of empty_externals main_cfg "[]" "new_image main_cfg"]
  have eq: "render_calls empty_externals main_cfg [] 0 (new_image main_cfg)
        (main_process empty_externals main_cfg 0) = render_events main_cfg 0"
    by simp
  from render_events_main_cfg_head obtain rest where
    h: "render_events main_cfg 0 = Update 0 336 # Sample 336 0 0 # Push 336 0 # rest"
    by blast
  show ?thesis
    unfolding eq using render_events_main_cfg_last by (simp add: h)
qed

lemma probe_sample_color:
  assumes "1 < image_width cfg" and "1 < image_height cfg" and "2 \<le> max_depth cfg"
  shows "sample_color (probe_externals cfg) cfg world j i g
     = (vec3 (real_of_int i / 2) (0.7 * real_of_int j) 0, Suc (Suc g))"
proof -
  have up: "ray_color (probe_externals cfg) up_ray world (max_depth cfg - 1) (Suc (Suc g))
      = (vec3 0.5 0.7 1, Suc (Suc g))"
    using assms(3)
    by (subst ray_color.simps)
      (simp add: probe_externals_def up_ray_def sky_color_up_ray [unfolded up_ray_def])
  have w: "real_of_int (image_width cfg - 1) \<noteq> 0" using assms(1) by simp
  have h: "real_of_int (image_height cfg - 1) \<noteq> 0" using assms(2) by simp
  have r: "ray_color (probe_externals cfg)
       (ray (vec3 (real_of_int i) (real_of_int j) 0) (vec3 0 0 1)) world (max_depth cfg)
       (Suc (Suc g))
     = (vec3 (real_of_int i / 2) (0.7 * real_of_int j) 0, Suc (Suc g))"
    using assms(3) up
    by (subst ray_color.simps)
      (simp add: probe_externals_def grey_hit_def vec_mul_def)
  from w h r show ?thesis
    by (simp add: sample_color_def pixel_u_def pixel_v_def)
      (simp add: probe_externals_def)
qed

lemma probe_sample_colors:
  assumes "1 < image_width cfg" and "1 < image_height cfg" and "2 \<le> max_depth cfg"
  shows "sample_colors (probe_externals cfg) cfg world j i n g
     = (replicate n (vec3 (real_of_int i / 2) (0.7 * real_of_int j) 0), g + 2 * n)"
  by (induction n arbitrary: g) (simp_all add: probe_sample_color [OF assms])

lemma foldl_vec_add_replicate:
  "foldl vec_add a (replicate n c) = vec_add a (vec_scale (real n) c)"
  by (induction n arbitrary: a)
    (simp_all add: vec_add_def vec_scale_def algebra_simps)






lemma hd_loop_order:
  assumes "0 < image_width cfg" and "0 < image_height cfg"
  shows "hd (loop_order cfg) = (image_height cfg - 1, 0)"
    and "hd (spec_top_to_bottom cfg) = (0, 0)"
proof -
  from assms(1) have c: "[0..image_width cfg - 1] = 0 # [1..image_width cfg - 1]"
    using upto_rec1 [of 0 "image_width cfg - 1"] by simp
  from assms(2) have r: "rev [0..image_height cfg - 1]
      = (image_height cfg - 1) # rev [0..image_height cfg - 1 - 1]"
    using rev_upto_head [of "image_height cfg - 1"] by simp
  from assms(2) have r': "[0..image_height cfg - 1] = 0 # [1..image_height cfg - 1]"
    using upto_rec1 [of 0 "image_height cfg - 1"] by simp
  show "hd (loop_order cfg) = (image_height cfg - 1, 0)"
    unfolding loop_order_def r by (simp add: c)
  show "hd (spec_top_to_bottom cfg) = (0, 0)"
    unfolding spec_top_to_bottom_def r' by (simp add: c)
qed

lemma loop_order_not_spec:
  assumes "0 < image_width cfg" and "1 < image_height cfg"
  shows "loop_order cfg \<noteq> spec_top_to_bottom cfg"
proof
  assume "loop_order cfg = spec_top_to_bottom cfg"
  then have "hd (loop_order cfg) = hd (spec_top_to_bottom cfg)" by simp
  with hd_loop_order [of cfg] assms show False by simp
qed



lemma max_depth_small_cfg: "max_depth small_cfg = 2"
  by (simp add: small_cfg_def)






text \<open>C9: with \<open>N = threadCount > 0\<close> workers and a budget \<open>samples_per_pixel_total \<ge> 0\<close>,
  every worker accumulates exactly \<open>samples_per_pixel_total / N\<close> samples for each pixel,
  the quotient being the integer part of the exact one. Each turn of the sample loop adds
  the colour of one sample (the ray through the jittered position of the pixel) to
  \<^verbatim>\<open>pixel_color\<close>; the loop started at 0 adds the colours of exactly that many successive
  samples; the body of the pixel loop pushes the tone-mapped sum; and in a run of
  \<^verbatim>\<open>renderImage\<close> that many samples are taken for every pixel of the image. Together the
  workers take \<open>samples_per_pixel_total - samples_per_pixel_total mod N\<close> samples per
  pixel, which is the whole budget exactly when \<open>N\<close> divides it and less than the budget
  otherwise.\<close>

theorem samples_per_worker:
  assumes "0 < threadCount cfg" and "0 \<le> samples_per_pixel_total cfg"
    and "threadIndex < length (linesLeft (singleton st))"
  shows "samples_per_pixel cfg = samples_per_pixel_total cfg div threadCount cfg
    \<and> real_of_int (samples_per_pixel cfg)
        \<le> real_of_int (samples_per_pixel_total cfg) / real_of_int (threadCount cfg)
    \<and> real_of_int (samples_per_pixel_total cfg) / real_of_int (threadCount cfg)
        < real_of_int (samples_per_pixel cfg) + 1
    \<and> (\<forall>j i s c st0.
          fst (sample_step E cfg world j i s (c, st0))
            = vec_add c (fst (sample_color E cfg world j i (gen st0)))
        \<and> gen (snd (sample_step E cfg world j i s (c, st0)))
            = snd (sample_color E cfg world j i (gen st0)))
    \<and> (\<forall>j i c st0.
          fst (sample_loop E cfg world j i 0 (c, st0))
            = foldl vec_add c
                (fst (sample_colors E cfg world j i (nat (samples_per_pixel cfg)) (gen st0)))
        \<and> length (fst (sample_colors E cfg world j i (nat (samples_per_pixel cfg)) (gen st0)))
            = nat (samples_per_pixel cfg))
    \<and> (\<forall>j i img0 st0.
          pixels (fst (pixel_step E cfg world j i (img0, st0)))
            = pixels img0
              @ [get_color E
                   (foldl vec_add (vec3 0 0 0)
                      (fst (sample_colors E cfg world j i (nat (samples_per_pixel cfg))
                             (gen st0))))
                   (samples_per_pixel cfg)])
    \<and> (\<exists>img' st'. renderImage E cfg world threadIndex img st = Inr (img', st')
         \<and> (\<forall>j i. 0 \<le> j \<and> j < image_height cfg \<and> 0 \<le> i \<and> i < image_width cfg \<longrightarrow>
               samples_of j i (drop (length (calls st)) (calls st'))
                 = nat (samples_per_pixel cfg))
         \<and> pixels img' = pixels img
             @ map snd (image_pixels E cfg world (int threadIndex)
                          (rev [0..image_height cfg - 1]) (gen st)))
    \<and> threadCount cfg * samples_per_pixel cfg
        = samples_per_pixel_total cfg - samples_per_pixel_total cfg mod threadCount cfg
    \<and> (threadCount cfg dvd samples_per_pixel_total cfg
         \<longleftrightarrow> threadCount cfg * samples_per_pixel cfg = samples_per_pixel_total cfg)
    \<and> (\<not> threadCount cfg dvd samples_per_pixel_total cfg
         \<longleftrightarrow> threadCount cfg * samples_per_pixel cfg < samples_per_pixel_total cfg)"
proof -
  let ?t = "samples_per_pixel_total cfg" and ?n = "threadCount cfg"
  have spp: "samples_per_pixel cfg = ?t div ?n"
    using assms(1,2) by (simp add: samples_per_pixel_def sdiv_nonneg)
  have fl: "?t div ?n = \<lfloor>real_of_int ?t / real_of_int ?n\<rfloor>"
    by (simp add: floor_divide_of_int_eq)
  have lo: "real_of_int (samples_per_pixel cfg) \<le> real_of_int ?t / real_of_int ?n"
    unfolding spp fl by (rule of_int_floor_le)
  have hi: "real_of_int ?t / real_of_int ?n < real_of_int (samples_per_pixel cfg) + 1"
    unfolding spp fl by linarith
  have m: "?n * (?t div ?n) = ?t - ?t mod ?n"
    by (simp add: minus_mod_eq_mult_div)
  have mp: "0 \<le> ?t mod ?n" using assms(1) by simp
  have d: "?n dvd ?t \<longleftrightarrow> ?t mod ?n = 0" by (simp add: dvd_eq_mod_eq_0)
  from m mp d have a: "?n * samples_per_pixel cfg = ?t - ?t mod ?n"
    and b: "?n dvd ?t \<longleftrightarrow> ?n * samples_per_pixel cfg = ?t"
    and c: "\<not> ?n dvd ?t \<longleftrightarrow> ?n * samples_per_pixel cfg < ?t"
    unfolding spp by auto
  have step: "\<forall>j i s c st0.
          fst (sample_step E cfg world j i s (c, st0))
            = vec_add c (fst (sample_color E cfg world j i (gen st0)))
        \<and> gen (snd (sample_step E cfg world j i s (c, st0)))
            = snd (sample_color E cfg world j i (gen st0))"
    by (simp add: sample_step_value)
  have loop: "\<forall>j i c st0.
          fst (sample_loop E cfg world j i 0 (c, st0))
            = foldl vec_add c
                (fst (sample_colors E cfg world j i (nat (samples_per_pixel cfg)) (gen st0)))
        \<and> length (fst (sample_colors E cfg world j i (nat (samples_per_pixel cfg)) (gen st0)))
            = nat (samples_per_pixel cfg)"
  proof (intro allI conjI)
    fix j i c st0
    from sample_loop_value [of E cfg world j i 0 "(c, st0)"]
    show "fst (sample_loop E cfg world j i 0 (c, st0))
            = foldl vec_add c
                (fst (sample_colors E cfg world j i (nat (samples_per_pixel cfg)) (gen st0)))"
      by simp
    show "length (fst (sample_colors E cfg world j i (nat (samples_per_pixel cfg)) (gen st0)))
            = nat (samples_per_pixel cfg)"
      by (rule length_sample_colors)
  qed
  have pix: "\<forall>j i img0 st0.
          pixels (fst (pixel_step E cfg world j i (img0, st0)))
            = pixels img0
              @ [get_color E
                   (foldl vec_add (vec3 0 0 0)
                      (fst (sample_colors E cfg world j i (nat (samples_per_pixel cfg))
                             (gen st0))))
                   (samples_per_pixel cfg)]"
  proof (intro allI)
    fix j i img0 st0
    from pixel_step_value [of E cfg world j i "(img0, st0)"]
    show "pixels (fst (pixel_step E cfg world j i (img0, st0)))
            = pixels img0
              @ [get_color E
                   (foldl vec_add (vec3 0 0 0)
                      (fst (sample_colors E cfg world j i (nat (samples_per_pixel cfg))
                             (gen st0))))
                   (samples_per_pixel cfg)]"
      by (simp add: pixel_value_def split_beta)
  qed
  from renderImage_value [OF assms(3), of E cfg world img] obtain img' st' where
    run: "renderImage E cfg world threadIndex img st = Inr (img', st')"
    and ev: "calls st' = calls st @ render_events cfg (int threadIndex)"
    and px: "pixels img' = pixels img
         @ map snd (image_pixels E cfg world (int threadIndex)
                      (rev [0..image_height cfg - 1]) (gen st))"
    by blast
  have cnt: "\<forall>j i. 0 \<le> j \<and> j < image_height cfg \<and> 0 \<le> i \<and> i < image_width cfg \<longrightarrow>
       samples_of j i (drop (length (calls st)) (calls st')) = nat (samples_per_pixel cfg)"
    by (simp add: ev samples_of_render_events)
  from run cnt px
  have ex: "\<exists>img' st'. renderImage E cfg world threadIndex img st = Inr (img', st')
         \<and> (\<forall>j i. 0 \<le> j \<and> j < image_height cfg \<and> 0 \<le> i \<and> i < image_width cfg \<longrightarrow>
               samples_of j i (drop (length (calls st)) (calls st'))
                 = nat (samples_per_pixel cfg))
         \<and> pixels img' = pixels img
             @ map snd (image_pixels E cfg world (int threadIndex)
                          (rev [0..image_height cfg - 1]) (gen st))"
    by blast
  show ?thesis
    by (intro conjI) (rule spp lo hi step loop pix ex a b c)+
qed

text \<open>Five samples shared by two workers, in the scene that shows the position of a pixel
  in its value: each worker adds up two samples of the pixel in the column 2 of the row
  1, each of the colour \<open>(1, 0.7, 0)\<close>, and one sample of the budget is taken by nobody.\<close>

theorem samples_per_worker_witness:
  "samples_per_pixel small_cfg = 2
   \<and> fst (sample_loop (probe_externals small_cfg) small_cfg [] 1 2 0
          (vec3 0 0 0, main_process (probe_externals small_cfg) small_cfg 0))
       = vec3 2 1.4 0
   \<and> samples_of 1 2 (render_calls (probe_externals small_cfg) small_cfg [] 0
        (new_image small_cfg) (main_process (probe_externals small_cfg) small_cfg 0)) = 2
   \<and> threadCount small_cfg * samples_per_pixel small_cfg = 4
   \<and> threadCount small_cfg * samples_per_pixel small_cfg < samples_per_pixel_total small_cfg"
proof -
  let ?E = "probe_externals small_cfg"
  have r: "(0::nat) < length (linesLeft (singleton (main_process ?E small_cfg 0)))"
    by (simp add: main_process_linesLeft threadCount_small_cfg)
  have n: "0 < threadCount small_cfg" and t: "0 \<le> samples_per_pixel_total small_cfg"
    by (simp_all add: small_cfg_def)
  have small: "1 < image_width small_cfg" "1 < image_height small_cfg"
    "2 \<le> max_depth small_cfg"
    by (simp_all add: image_width_small_cfg image_height_small_cfg max_depth_small_cfg)
  note inst = samples_per_worker [OF n t r, of ?E "[]" "new_image small_cfg"]
  from inst have loop: "fst (sample_loop ?E small_cfg [] 1 2 0
          (vec3 0 0 0, main_process ?E small_cfg 0))
       = foldl vec_add (vec3 0 0 0)
           (fst (sample_colors ?E small_cfg [] 1 2 (nat (samples_per_pixel small_cfg))
              (gen (main_process ?E small_cfg 0))))"
    by blast
  have sum: "fst (sample_loop ?E small_cfg [] 1 2 0 (vec3 0 0 0, main_process ?E small_cfg 0))
       = vec3 2 1.4 0"
    unfolding loop
    by (simp add: probe_sample_colors [OF small] samples_per_pixel_small_cfg
        foldl_vec_add_replicate vec_add_def vec_scale_def)
  from inst obtain img' st' where
    run: "renderImage ?E small_cfg [] 0 (new_image small_cfg)
        (main_process ?E small_cfg 0) = Inr (img', st')"
    and cnt: "\<forall>j i. 0 \<le> j \<and> j < image_height small_cfg \<and> 0 \<le> i \<and> i < image_width small_cfg
       \<longrightarrow> samples_of j i
             (drop (length (calls (main_process ?E small_cfg 0))) (calls st'))
           = nat (samples_per_pixel small_cfg)"
    by blast
  from cnt have "samples_of 1 2
      (drop (length (calls (main_process ?E small_cfg 0))) (calls st')) = 2"
    by (simp add: image_height_small_cfg image_width_small_cfg samples_per_pixel_small_cfg)
  with run have log: "samples_of 1 2 (render_calls ?E small_cfg [] 0
      (new_image small_cfg) (main_process ?E small_cfg 0)) = 2"
    by (simp add: render_calls_def)
  have ar: "threadCount small_cfg * samples_per_pixel small_cfg = 4"
    "threadCount small_cfg * samples_per_pixel small_cfg < samples_per_pixel_total small_cfg"
    by (simp_all add: samples_per_pixel_small_cfg threadCount_small_cfg)
      (simp add: small_cfg_def)
  from sum log ar show ?thesis
    by (simp add: samples_per_pixel_small_cfg)
qed

end
